theory Spec2Isabelle
  imports Main
begin

section \<open>Strings\<close>

text \<open>
  A string is the list of its code units. A \<^typ>\<open>char\<close> has the values 0 to
  255, so the strings here are those whose code units are below 256 (the
  range of ISO 8859-1). On these, \<^verbatim>\<open>toLowerCase\<close>, \<^verbatim>\<open>trim\<close>, the class
  \<^verbatim>\<open>\s\<close> and the flag \<^verbatim>\<open>i\<close> are as ECMAScript defines them.
\<close>

text \<open>
  \<^verbatim>\<open>toLowerCase\<close>: the letters A to Z, and the capital letters of the upper
  half, 0xC0 to 0xDE without the multiplication sign 0xD7, go to the code unit
  0x20 above them.
\<close>

definition upperCaseLetters :: "char list" where
  "upperCaseLetters =
     ''ABCDEFGHIJKLMNOPQRSTUVWXYZ''
     @ [CHR 0xC0, CHR 0xC1, CHR 0xC2, CHR 0xC3, CHR 0xC4, CHR 0xC5, CHR 0xC6, CHR 0xC7,
        CHR 0xC8, CHR 0xC9, CHR 0xCA, CHR 0xCB, CHR 0xCC, CHR 0xCD, CHR 0xCE, CHR 0xCF,
        CHR 0xD0, CHR 0xD1, CHR 0xD2, CHR 0xD3, CHR 0xD4, CHR 0xD5, CHR 0xD6,
        CHR 0xD8, CHR 0xD9, CHR 0xDA, CHR 0xDB, CHR 0xDC, CHR 0xDD, CHR 0xDE]"

definition lowerCaseLetters :: "char list" where
  "lowerCaseLetters =
     ''abcdefghijklmnopqrstuvwxyz''
     @ [CHR 0xE0, CHR 0xE1, CHR 0xE2, CHR 0xE3, CHR 0xE4, CHR 0xE5, CHR 0xE6, CHR 0xE7,
        CHR 0xE8, CHR 0xE9, CHR 0xEA, CHR 0xEB, CHR 0xEC, CHR 0xED, CHR 0xEE, CHR 0xEF,
        CHR 0xF0, CHR 0xF1, CHR 0xF2, CHR 0xF3, CHR 0xF4, CHR 0xF5, CHR 0xF6,
        CHR 0xF8, CHR 0xF9, CHR 0xFA, CHR 0xFB, CHR 0xFC, CHR 0xFD, CHR 0xFE]"

definition toLowerChar :: "char \<Rightarrow> char" where
  "toLowerChar c =
     (case map_of (zip upperCaseLetters lowerCaseLetters) c of
        Some l \<Rightarrow> l
      | None \<Rightarrow> c)"

definition toLowerCase :: "string \<Rightarrow> string" where
  "toLowerCase s = map toLowerChar s"

text \<open>
  White space and line terminators: tab, line feed, vertical tab, form feed,
  carriage return, space, and the no-break space 0xA0.
\<close>

definition isWhiteSpace :: "char \<Rightarrow> bool" where
  "isWhiteSpace c =
     (c \<in> set [CHR 0x09, CHR 0x0A, CHR 0x0B, CHR 0x0C, CHR 0x0D, CHR 0x20, CHR 0xA0])"

definition trim :: "string \<Rightarrow> string" where
  "trim s = rev (dropWhile isWhiteSpace (rev (dropWhile isWhiteSpace s)))"

text \<open>\<^verbatim>\<open>xs.join(sep)\<close>\<close>

fun join :: "string \<Rightarrow> string list \<Rightarrow> string" where
  "join sep [] = []"
| "join sep [x] = x"
| "join sep (x # y # ys) = x @ sep @ join sep (y # ys)"

text \<open>
  \<^verbatim>\<open>s.split(/\s+/)\<close>: the pieces between maximal runs of white space; a run at
  the start or at the end of the string leaves an empty piece there. The flag
  says that the previous character was white space, \<open>cur\<close> is the piece being
  read, reversed.
\<close>

fun splitWhiteSpaceFrom :: "bool \<Rightarrow> string \<Rightarrow> string \<Rightarrow> string list" where
  "splitWhiteSpaceFrom inRun cur [] = [rev cur]"
| "splitWhiteSpaceFrom inRun cur (c # cs) =
     (if isWhiteSpace c
      then (if inRun then splitWhiteSpaceFrom True cur cs
            else rev cur # splitWhiteSpaceFrom True [] cs)
      else splitWhiteSpaceFrom False (c # cur) cs)"

definition splitWhiteSpace :: "string \<Rightarrow> string list" where
  "splitWhiteSpace s = splitWhiteSpaceFrom False [] s"

text \<open>\<^verbatim>\<open>xs.indexOf(x)\<close>: the first position of \<open>x\<close>, or \<open>-1\<close>.\<close>

fun indexOf :: "'a list \<Rightarrow> 'a \<Rightarrow> int" where
  "indexOf [] x = -1"
| "indexOf (y # ys) x =
     (if y = x then 0 else (let r = indexOf ys x in if r < 0 then -1 else r + 1))"

text \<open>The decimal rendering of an integer inside a template literal.\<close>

definition digitChar :: "nat \<Rightarrow> char" where
  "digitChar d = ''0123456789'' ! d"

function natToString :: "nat \<Rightarrow> string" where
  "natToString n = (if n < 10 then [digitChar n] else natToString (n div 10) @ [digitChar (n mod 10)])"
  by pat_completeness auto
termination
  by (relation "measure (\<lambda>n. n)") auto

definition numberToString :: "int \<Rightarrow> string" where
  "numberToString i = (if i < 0 then CHR ''-'' # natToString (nat (- i)) else natToString (nat i))"

section \<open>The document seen by an in-page script\<close>

datatype html_interface =
    HTMLImageElement
  | HTMLInputElement
  | HTMLTextAreaElement
  | HTMLElementOther
  | NonHTMLElement

text \<open>
  Elements live in a store and are referred to by their address, so that
  \<^verbatim>\<open>===\<close> and \<^verbatim>\<open>indexOf\<close> on elements compare addresses. \<open>attributes\<close> is
  \<^verbatim>\<open>getAttribute\<close>: \<open>None\<close> for an attribute that is not there.
\<close>

record element =
  tagName :: string
  attributes :: "string \<Rightarrow> string option"
  classList :: "string list"
  parentElement :: "nat option"
  children :: "nat list"
  textContent :: string
  outerHTML :: string
  interface :: html_interface

text \<open>
  A value thrown: an \<^verbatim>\<open>Error\<close> with its message, or another value.
\<close>

datatype thrown = ErrorObject string | OtherValue

text \<open>
  \<open>allElements\<close> lists the elements of the document in document order.
  \<open>globalBuildSelector\<close> and \<open>globalDeriveAccessibleName\<close> are what the names
  \<^verbatim>\<open>buildSelector\<close> and \<^verbatim>\<open>deriveAccessibleName\<close> are bound to in the global
  scope of the page, by the page's own scripts: \<open>None\<close> when the name is not
  declared there. A page function is taken to return a value of the type the
  program expects, or to throw, and to leave the page as it is.
\<close>

record document =
  node :: "nat \<Rightarrow> element"
  allElements :: "nat list"
  body :: "nat option"
  documentElement :: "nat option"
  activeElement :: "nat option"
  globalBuildSelector :: "(nat \<Rightarrow> thrown + string) option"
  globalDeriveAccessibleName :: "(nat \<Rightarrow> thrown + string option) option"

text \<open>\<^verbatim>\<open>el.id\<close> reflects the \<^verbatim>\<open>id\<close> attribute, the empty string when it is absent.\<close>

definition elementId :: "element \<Rightarrow> string" where
  "elementId e = (case attributes e ''id'' of None \<Rightarrow> [] | Some v \<Rightarrow> v)"

text \<open>
  \<^verbatim>\<open>document.getElementById\<close>: the first element in document order with that
  id; no element has the empty id.
\<close>

definition getElementById :: "document \<Rightarrow> string \<Rightarrow> nat option" where
  "getElementById doc i =
     (if i = [] then None else find (\<lambda>n. elementId (node doc n) = i) (allElements doc))"

section \<open>Selector synthesis\<close>

definition cssSpecialChars :: "char list" where
  "cssSpecialChars =
     [CHR 0x21, CHR 0x22, CHR 0x23, CHR 0x24, CHR 0x25, CHR 0x26, CHR 0x27, CHR 0x28,
      CHR 0x29, CHR 0x2A, CHR 0x2B, CHR 0x2C, CHR 0x2E, CHR 0x2F, CHR 0x3A, CHR 0x3B,
      CHR 0x3C, CHR 0x3D, CHR 0x3E, CHR 0x3F, CHR 0x40, CHR 0x5B, CHR 0x5C, CHR 0x5D,
      CHR 0x5E, CHR 0x60, CHR 0x7B, CHR 0x7C, CHR 0x7D, CHR 0x7E, CHR 0x20]"

text \<open>\<^verbatim>\<open>cssEscape\<close>: a backslash before every character of the class.\<close>

definition cssEscape :: "string \<Rightarrow> string" where
  "cssEscape v = concat (map (\<lambda>c. if c \<in> set cssSpecialChars then [CHR 0x5C, c] else [c]) v)"

text \<open>
  The body of the loop of \<^verbatim>\<open>buildSelector\<close>: the selector of one level.
  \<open>current\<close> is the address of the element of that level.
\<close>

definition selectorSegment :: "document \<Rightarrow> nat \<Rightarrow> string" where
  "selectorSegment doc current =
     (let selector = toLowerCase (tagName (node doc current));
          classes = classList (node doc current);
          selector = (if length classes \<noteq> 0
                      then selector @ ''.'' @ join ''.'' (map cssEscape classes)
                      else selector);
          siblings = filter (\<lambda>child. tagName (node doc child) = tagName (node doc current))
                       (case parentElement (node doc current) of
                          None \<Rightarrow> []
                        | Some p \<Rightarrow> children (node doc p))
      in if length siblings > 1
         then (let index = indexOf siblings current + 1
               in selector @ '':nth-of-type('' @ numberToString index @ '')'')
         else selector)"

text \<open>
  The loop \<^verbatim>\<open>while (current && depth < 4)\<close>; \<^verbatim>\<open>path.unshift\<close> puts the
  segment in front.
\<close>

function buildPath :: "document \<Rightarrow> nat option \<Rightarrow> nat \<Rightarrow> string list \<Rightarrow> string list" where
  "buildPath doc current depth path =
     (case current of
        None \<Rightarrow> path
      | Some cur \<Rightarrow>
          if depth < 4
          then buildPath doc (parentElement (node doc cur)) (depth + 1)
                 (selectorSegment doc cur # path)
          else path)"
  by pat_completeness auto
termination
  by (relation "measure (\<lambda>(doc, current, depth, path). 4 - depth)") auto

definition buildSelector :: "document \<Rightarrow> nat \<Rightarrow> string" where
  "buildSelector doc el =
     (if elementId (node doc el) \<noteq> []
      then ''#'' @ cssEscape (elementId (node doc el))
      else join '' > '' (buildPath doc (Some el) 0 []))"

section \<open>Accessible names\<close>

text \<open>
  The step that \<^verbatim>\<open>deriveAccessibleName\<close> repeats for an attribute:
  \<^verbatim>\<open>const v = el.getAttribute(a); if (v && v.trim().length > 0) return v.trim();\<close>
  \<open>None\<close> stands for falling through to the next step.
\<close>

definition trimmedAttribute :: "element \<Rightarrow> string \<Rightarrow> string option" where
  "trimmedAttribute e a =
     (case attributes e a of
        None \<Rightarrow> None
      | Some v \<Rightarrow> if v \<noteq> [] \<and> length (trim v) > 0 then Some (trim v) else None)"

text \<open>The \<^verbatim>\<open>aria-labelledby\<close> step.\<close>

definition labelledByText :: "document \<Rightarrow> element \<Rightarrow> string option" where
  "labelledByText doc e =
     (case attributes e ''aria-labelledby'' of
        None \<Rightarrow> None
      | Some labelledBy \<Rightarrow>
          if labelledBy = [] then None
          else (let ids = splitWhiteSpace labelledBy;
                    nodes = List.map_filter (getElementById doc) ids;
                    text = trim (join '' '' (map (\<lambda>n. trim (textContent (node doc n))) nodes))
                in if length text > 0 then Some text else None))"

definition deriveAccessibleName :: "document \<Rightarrow> nat \<Rightarrow> string option" where
  "deriveAccessibleName doc el =
     (let e = node doc el in
      case trimmedAttribute e ''aria-label'' of
        Some ariaLabel \<Rightarrow> Some ariaLabel
      | None \<Rightarrow>
      (case labelledByText doc e of
        Some text \<Rightarrow> Some text
      | None \<Rightarrow>
      (case trimmedAttribute e ''title'' of
        Some title \<Rightarrow> Some title
      | None \<Rightarrow>
      (case (if interface e = HTMLImageElement then trimmedAttribute e ''alt'' else None) of
        Some alt \<Rightarrow> Some alt
      | None \<Rightarrow>
      (case (if interface e = HTMLInputElement \<or> interface e = HTMLTextAreaElement
             then (case trimmedAttribute e ''placeholder'' of
                     Some placeholder \<Rightarrow> Some placeholder
                   | None \<Rightarrow> trimmedAttribute e ''name'')
             else None) of
        Some v \<Rightarrow> Some v
      | None \<Rightarrow>
          (let content = trim (textContent e)
           in if content \<noteq> [] \<and> length content > 0 then Some content else None))))))"

section \<open>Element metadata\<close>

record FocusTarget =
  selector :: string
  tag :: string
  role :: "string option"
  name :: "string option"
  hasAccessibleName :: bool
  htmlSnippet :: string

text \<open>
  The script that \<^verbatim>\<open>getActiveElementMetadata\<close> of
  \<^verbatim>\<open>src/app/api/check/route.ts\<close> evaluates in the page, over the document it
  finds there. The script declares \<^verbatim>\<open>cssEscape\<close>, \<^verbatim>\<open>buildSelector\<close> and
  \<^verbatim>\<open>deriveAccessibleName\<close> itself.
\<close>

definition activeElementMetadata :: "document \<Rightarrow> FocusTarget option" where
  "activeElementMetadata doc =
     (case activeElement doc of
        None \<Rightarrow> None
      | Some el \<Rightarrow>
          if Some el = body doc \<or> Some el = documentElement doc then None
          else (let nm = deriveAccessibleName doc el
                in Some \<lparr> selector = buildSelector doc el,
                          tag = toLowerCase (tagName (node doc el)),
                          role = (case attributes (node doc el) ''role'' of
                                    None \<Rightarrow> None
                                  | Some r \<Rightarrow> if r = [] then None else Some r),
                          name = nm,
                          hasAccessibleName =
                            (case nm of
                               None \<Rightarrow> False
                             | Some n \<Rightarrow> n \<noteq> [] \<and> length (trim n) > 0),
                          htmlSnippet = take 160 (outerHTML (node doc el)) \<rparr>))"

text \<open>
  The script that \<^verbatim>\<open>getActiveElementMetadata\<close> of \<^verbatim>\<open>src/actions.ts\<close>
  evaluates in the page. \<^verbatim>\<open>src/actions.ts\<close> declares \<^verbatim>\<open>buildSelector\<close> and
  \<^verbatim>\<open>deriveAccessibleName\<close> in its module, outside the script; in the page the
  two names are looked up in the global scope. A name that is not declared
  there makes the script throw a \<^verbatim>\<open>ReferenceError\<close>.
\<close>

definition referenceError :: "string \<Rightarrow> thrown" where
  "referenceError n = ErrorObject (n @ '' is not defined'')"

definition activeElementMetadata_actions :: "document \<Rightarrow> thrown + FocusTarget option" where
  "activeElementMetadata_actions doc =
     (case activeElement doc of
        None \<Rightarrow> Inr None
      | Some el \<Rightarrow>
          if Some el = body doc \<or> Some el = documentElement doc then Inr None
          else
            (case globalBuildSelector doc of
               None \<Rightarrow> Inl (referenceError ''buildSelector'')
             | Some pageBuildSelector \<Rightarrow>
            (case pageBuildSelector el of
               Inl e \<Rightarrow> Inl e
             | Inr sel \<Rightarrow>
            (case globalDeriveAccessibleName doc of
               None \<Rightarrow> Inl (referenceError ''deriveAccessibleName'')
             | Some pageDeriveAccessibleName \<Rightarrow>
            (case pageDeriveAccessibleName el of
               Inl e \<Rightarrow> Inl e
             | Inr nm \<Rightarrow>
                 Inr (Some \<lparr> selector = sel,
                              tag = toLowerCase (tagName (node doc el)),
                              role = (case attributes (node doc el) ''role'' of
                                        None \<Rightarrow> None
                                      | Some r \<Rightarrow> if r = [] then None else Some r),
                              name = nm,
                              hasAccessibleName =
                                (case nm of
                                   None \<Rightarrow> False
                                 | Some n \<Rightarrow> n \<noteq> [] \<and> length (trim n) > 0),
                              htmlSnippet = take 160 (outerHTML (node doc el)) \<rparr>))))))"

section \<open>The static scan\<close>

record image_descriptor =
  src :: "string option"
  snippet :: string

record AriaReport =
  ariaAttributeCount :: nat
  imagesMissingAlt :: "image_descriptor list"

text \<open>\<^verbatim>\<open>document.querySelectorAll('img')\<close>, in document order.\<close>

definition imageElements :: "document \<Rightarrow> nat list" where
  "imageElements doc =
     filter (\<lambda>n. toLowerCase (tagName (node doc n)) = ''img'') (allElements doc)"

text \<open>\<^verbatim>\<open>querySelectorAll('[aria-label],[aria-labelledby],[aria-describedby],[role]')\<close>\<close>

definition ariaNodes :: "document \<Rightarrow> nat list" where
  "ariaNodes doc =
     filter (\<lambda>n. attributes (node doc n) ''aria-label'' \<noteq> None
                \<or> attributes (node doc n) ''aria-labelledby'' \<noteq> None
                \<or> attributes (node doc n) ''aria-describedby'' \<noteq> None
                \<or> attributes (node doc n) ''role'' \<noteq> None) (allElements doc)"

text \<open>The callback of \<^verbatim>\<open>images.filter\<close>.\<close>

definition missingAltFilter :: "document \<Rightarrow> nat \<Rightarrow> bool" where
  "missingAltFilter doc img =
     (case attributes (node doc img) ''alt'' of
        None \<Rightarrow> True
      | Some alt \<Rightarrow>
          (let trimmed = trim alt
           in if length trimmed = 0
                 \<and> \<not> (case attributes (node doc img) ''role'' of
                         None \<Rightarrow> False
                       | Some r \<Rightarrow> r \<noteq> [])
              then True
              else False))"

definition scanDocument :: "document \<Rightarrow> AriaReport" where
  "scanDocument doc =
     (let images = imageElements doc;
          missing = map (\<lambda>img. \<lparr> src = attributes (node doc img) ''src'',
                                  snippet = take 160 (outerHTML (node doc img)) \<rparr>)
                      (take 20 (filter (missingAltFilter doc) images))
      in \<lparr> ariaAttributeCount = length (ariaNodes doc), imagesMissingAlt = missing \<rparr>)"

section \<open>URL normalisation\<close>

text \<open>\<^verbatim>\<open>/^https?:\/\//i.test(input)\<close>\<close>

definition hasHttpScheme :: "string \<Rightarrow> bool" where
  "hasHttpScheme input =
     (toLowerCase (take 7 input) = ''http://'' \<or> toLowerCase (take 8 input) = ''https://'')"

definition normalizeUrl :: "string \<Rightarrow> string" where
  "normalizeUrl input = (if hasHttpScheme input then input else ''https://'' @ input)"

section \<open>The browser\<close>

text \<open>
  The browser automation library is outside the program. Its calls are taken as
  parameters, over a state \<open>'w\<close> of the world (browser, network and page
  scripts) that every call may change. An awaited call that rejects is the
  result \<open>Inl\<close>, with the value thrown and the world it leaves behind.
\<close>

type_synonym ('a, 'w) outcome = "(thrown \<times> 'w) + ('a \<times> 'w)"

record launch_options =
  launchArgs :: "string list option"
  launchExecutablePath :: "string option"
  headless :: bool

text \<open>
  Browsers, contexts and pages are handles. \<open>evaluateBlurAndScroll\<close>,
  \<open>evaluateFocus\<close> and \<open>liveDocument\<close> are \<^verbatim>\<open>page.evaluate\<close>: the first two
  are the scripts that change the page (blur the active element and scroll to
  the top; \<^verbatim>\<open>querySelector\<close> and \<^verbatim>\<open>focus\<close>, returning whether an HTML element
  was found), the third gives the document that a reading script runs on.
  \<open>evaluateRejection\<close> is the value with which \<^verbatim>\<open>page.evaluate\<close> rejects when
  its script throws the given value in the page.
\<close>

record 'w playwright =
  launch :: "launch_options \<Rightarrow> 'w \<Rightarrow> (nat, 'w) outcome"
  newContext :: "nat \<Rightarrow> 'w \<Rightarrow> (nat, 'w) outcome"
  newPage :: "nat \<Rightarrow> 'w \<Rightarrow> (nat, 'w) outcome"
  goto :: "nat \<Rightarrow> string \<Rightarrow> 'w \<Rightarrow> (unit, 'w) outcome"
  waitForTimeout :: "nat \<Rightarrow> nat \<Rightarrow> 'w \<Rightarrow> (unit, 'w) outcome"
  keyboardPress :: "nat \<Rightarrow> string \<Rightarrow> 'w \<Rightarrow> (unit, 'w) outcome"
  evaluateBlurAndScroll :: "nat \<Rightarrow> 'w \<Rightarrow> (unit, 'w) outcome"
  evaluateFocus :: "nat \<Rightarrow> string \<Rightarrow> 'w \<Rightarrow> (bool, 'w) outcome"
  liveDocument :: "nat \<Rightarrow> 'w \<Rightarrow> (document, 'w) outcome"
  closePage :: "nat \<Rightarrow> 'w \<Rightarrow> (unit, 'w) outcome"
  closeContext :: "nat \<Rightarrow> 'w \<Rightarrow> (unit, 'w) outcome"
  closeBrowser :: "nat \<Rightarrow> 'w \<Rightarrow> (unit, 'w) outcome"
  evaluateRejection :: "thrown \<Rightarrow> thrown"

text \<open>\<^verbatim>\<open>getActiveElementMetadata\<close> of \<^verbatim>\<open>src/app/api/check/route.ts\<close>.\<close>

definition getActiveElementMetadata ::
  "'w playwright \<Rightarrow> nat \<Rightarrow> 'w \<Rightarrow> (FocusTarget option, 'w) outcome" where
  "getActiveElementMetadata pw page w =
     (case liveDocument pw page w of
        Inl e \<Rightarrow> Inl e
      | Inr (doc, w') \<Rightarrow> Inr (activeElementMetadata doc, w'))"

text \<open>\<^verbatim>\<open>getActiveElementMetadata\<close> of \<^verbatim>\<open>src/actions.ts\<close>.\<close>

definition getActiveElementMetadata_actions ::
  "'w playwright \<Rightarrow> nat \<Rightarrow> 'w \<Rightarrow> (FocusTarget option, 'w) outcome" where
  "getActiveElementMetadata_actions pw page w =
     (case liveDocument pw page w of
        Inl e \<Rightarrow> Inl e
      | Inr (doc, w') \<Rightarrow>
          (case activeElementMetadata_actions doc of
             Inl e \<Rightarrow> Inl (evaluateRejection pw e, w')
           | Inr t \<Rightarrow> Inr (t, w')))"

definition getAriaReport :: "'w playwright \<Rightarrow> nat \<Rightarrow> 'w \<Rightarrow> (AriaReport, 'w) outcome" where
  "getAriaReport pw page w =
     (case liveDocument pw page w of
        Inl e \<Rightarrow> Inl e
      | Inr (doc, w') \<Rightarrow> Inr (scanDocument doc, w'))"

text \<open>
  The two lines that open the body of both loops:
  \<^verbatim>\<open>await page.keyboard.press(key); await page.waitForTimeout(50);\<close>
\<close>

definition pressAndSettle :: "'w playwright \<Rightarrow> nat \<Rightarrow> string \<Rightarrow> 'w \<Rightarrow> (unit, 'w) outcome" where
  "pressAndSettle pw page key w =
     (case keyboardPress pw page key w of
        Inl e \<Rightarrow> Inl e
      | Inr (u, w1) \<Rightarrow> waitForTimeout pw page 50 w1)"

section \<open>The forward walk\<close>

record TabOrderReport =
  visited :: "FocusTarget list"
  cycleDetected :: bool
  limitReached :: bool
  shiftTabConsistent :: "bool option"

text \<open>
  How the \<^verbatim>\<open>for\<close> loop was left: by the first \<^verbatim>\<open>break\<close> (nothing extracted),
  by the second (a pair seen before), or because its condition failed.
\<close>

datatype loop_exit = BreakAbsent | BreakCycle | LoopEnd

text \<open>
  The variables of \<^verbatim>\<open>buildTabOrderReport\<close> after its loop. \<open>loopExit\<close> and
  \<open>iterations\<close> (the number of times the body was entered) observe the run
  and are not read by the program.
\<close>

record 'w loop_result =
  loopVisited :: "FocusTarget list"
  loopCycleDetected :: bool
  loopExit :: loop_exit
  iterations :: nat
  loopWorld :: 'w

text \<open>\<^verbatim>\<open>item.selector === target.selector && item.name === target.name\<close>\<close>

definition samePair :: "FocusTarget \<Rightarrow> FocusTarget \<Rightarrow> bool" where
  "samePair item target = (selector item = selector target \<and> name item = name target)"

text \<open>
  The loops of the forward and of the reverse walk are the same text in
  \<^verbatim>\<open>src/actions.ts\<close> and in \<^verbatim>\<open>src/app/api/check/route.ts\<close>. Each file calls
  its own \<^verbatim>\<open>getActiveElementMetadata\<close> in them and uses its own limit: these
  are the parameters \<open>getMetadata\<close> and \<open>maxIterations\<close>.
\<close>

type_synonym 'w extraction = "'w playwright \<Rightarrow> nat \<Rightarrow> 'w \<Rightarrow> (FocusTarget option, 'w) outcome"

text \<open>\<^verbatim>\<open>for (let i = 0; i < MAX_TAB_ITERATIONS; i++)\<close>, from the state before an iteration.\<close>

function tabLoop ::
  "'w extraction \<Rightarrow> 'w playwright \<Rightarrow> nat \<Rightarrow> nat \<Rightarrow> nat \<Rightarrow> FocusTarget list \<Rightarrow> 'w
     \<Rightarrow> (thrown \<times> 'w) + 'w loop_result" where
  "tabLoop getMetadata pw page maxIterations i vis w =
     (if i < maxIterations
      then (case pressAndSettle pw page ''Tab'' w of
              Inl e \<Rightarrow> Inl e
            | Inr (u, w1) \<Rightarrow>
                (case getMetadata pw page w1 of
                   Inl e \<Rightarrow> Inl e
                 | Inr (None, w2) \<Rightarrow>
                     Inr \<lparr> loopVisited = vis, loopCycleDetected = False,
                           loopExit = BreakAbsent, iterations = i + 1, loopWorld = w2 \<rparr>
                 | Inr (Some target, w2) \<Rightarrow>
                     if list_ex (\<lambda>item. samePair item target) vis
                     then Inr \<lparr> loopVisited = vis, loopCycleDetected = True,
                                loopExit = BreakCycle, iterations = i + 1, loopWorld = w2 \<rparr>
                     else tabLoop getMetadata pw page maxIterations (i + 1) (vis @ [target]) w2))
      else Inr \<lparr> loopVisited = vis, loopCycleDetected = False,
                 loopExit = LoopEnd, iterations = i, loopWorld = w \<rparr>)"
  by pat_completeness auto
termination
  by (relation "measure (\<lambda>(getMetadata, pw, page, maxIterations, i, vis, w). maxIterations - i)") auto

section \<open>The reverse walk\<close>

text \<open>
  \<^verbatim>\<open>for (let i = visited.length - 1; i > 0; i--)\<close>: the state before an
  iteration with \<open>i = Suc j\<close>, whose expected entry is \<^verbatim>\<open>visited[i - 1]\<close>.
\<close>

fun shiftTabLoop ::
  "'w extraction \<Rightarrow> 'w playwright \<Rightarrow> nat \<Rightarrow> FocusTarget list \<Rightarrow> nat \<Rightarrow> 'w \<Rightarrow> (bool option, 'w) outcome" where
  "shiftTabLoop getMetadata pw page vis 0 w = Inr (Some True, w)"
| "shiftTabLoop getMetadata pw page vis (Suc j) w =
     (case pressAndSettle pw page ''Shift+Tab'' w of
        Inl e \<Rightarrow> Inl e
      | Inr (u, w1) \<Rightarrow>
          (case getMetadata pw page w1 of
             Inl e \<Rightarrow> Inl e
           | Inr (None, w2) \<Rightarrow> Inr (Some False, w2)
           | Inr (Some target, w2) \<Rightarrow>
               (let expected = vis ! j
                in if selector target \<noteq> selector expected \<or> name target \<noteq> name expected
                   then Inr (Some False, w2)
                   else shiftTabLoop getMetadata pw page vis j w2)))"

definition verifyShiftTab ::
  "'w extraction \<Rightarrow> 'w playwright \<Rightarrow> nat \<Rightarrow> FocusTarget list \<Rightarrow> 'w \<Rightarrow> (bool option, 'w) outcome" where
  "verifyShiftTab getMetadata pw page vis w =
     (if length vis \<le> 1 then Inr (None, w)
      else (let lastTarget = vis ! (length vis - 1)
            in case evaluateFocus pw page (selector lastTarget) w of
                 Inl e \<Rightarrow> Inl e
               | Inr (refocused, w1) \<Rightarrow>
                   if \<not> refocused then Inr (None, w1)
                   else shiftTabLoop getMetadata pw page vis (length vis - 1) w1))"

text \<open>\<^verbatim>\<open>buildTabOrderReport\<close>\<close>

definition buildTabOrderReport ::
  "'w extraction \<Rightarrow> nat \<Rightarrow> 'w playwright \<Rightarrow> nat \<Rightarrow> 'w \<Rightarrow> (TabOrderReport, 'w) outcome" where
  "buildTabOrderReport getMetadata maxIterations pw page w =
     (case evaluateBlurAndScroll pw page w of
        Inl e \<Rightarrow> Inl e
      | Inr (u, w0) \<Rightarrow>
          (case tabLoop getMetadata pw page maxIterations 0 [] w0 of
             Inl e \<Rightarrow> Inl e
           | Inr lr \<Rightarrow>
               (let vis = loopVisited lr;
                    limit = (length vis = maxIterations)
                in case verifyShiftTab getMetadata pw page vis (loopWorld lr) of
                     Inl e \<Rightarrow> Inl e
                   | Inr (consistent, w2) \<Rightarrow>
                       Inr (\<lparr> visited = vis, cycleDetected = loopCycleDetected lr,
                               limitReached = limit, shiftTabConsistent = consistent \<rparr>, w2))))"

text \<open>\<^verbatim>\<open>MAX_TAB_ITERATIONS\<close> of \<^verbatim>\<open>src/actions.ts\<close> and of \<^verbatim>\<open>src/lib/accessibility-types.ts\<close>.\<close>

definition MAX_TAB_ITERATIONS_actions :: nat where
  "MAX_TAB_ITERATIONS_actions = 30"

definition MAX_TAB_ITERATIONS_lib :: nat where
  "MAX_TAB_ITERATIONS_lib = 100"

text \<open>The walk of \<^verbatim>\<open>src/actions.ts\<close> and the walk of \<^verbatim>\<open>src/app/api/check/route.ts\<close>.\<close>

definition buildTabOrderReport_actions ::
  "'w playwright \<Rightarrow> nat \<Rightarrow> 'w \<Rightarrow> (TabOrderReport, 'w) outcome" where
  "buildTabOrderReport_actions =
     buildTabOrderReport getActiveElementMetadata_actions MAX_TAB_ITERATIONS_actions"

definition buildTabOrderReport_route ::
  "'w playwright \<Rightarrow> nat \<Rightarrow> 'w \<Rightarrow> (TabOrderReport, 'w) outcome" where
  "buildTabOrderReport_route =
     buildTabOrderReport getActiveElementMetadata MAX_TAB_ITERATIONS_lib"

section \<open>Notions of the specification\<close>

text \<open>The identity of a snapshot: its (selector, name) pair.\<close>

definition pairOf :: "FocusTarget \<Rightarrow> string \<times> string option" where
  "pairOf t = (selector t, name t)"

text \<open>
  No call of the library on this page rejects, whatever the world is.
\<close>

definition neverThrows :: "'w playwright \<Rightarrow> nat \<Rightarrow> bool" where
  "neverThrows pw page =
     (\<forall>w key ms sel.
        (\<exists>r. keyboardPress pw page key w = Inr r)
      \<and> (\<exists>r. waitForTimeout pw page ms w = Inr r)
      \<and> (\<exists>r. evaluateBlurAndScroll pw page w = Inr r)
      \<and> (\<exists>r. evaluateFocus pw page sel w = Inr r)
      \<and> (\<exists>r. liveDocument pw page w = Inr r))"

text \<open>
  One step of the reverse walk: press Shift+Tab, pause, extract. \<open>shiftTabStepAt\<close>
  is step number \<open>k\<close> (from 0) of a reverse walk that starts in world \<open>w\<close>
  and goes on whatever the earlier steps extracted.
\<close>

definition shiftTabStep ::
  "'w extraction \<Rightarrow> 'w playwright \<Rightarrow> nat \<Rightarrow> 'w \<Rightarrow> (FocusTarget option, 'w) outcome" where
  "shiftTabStep getMetadata pw page w =
     (case pressAndSettle pw page ''Shift+Tab'' w of
        Inl e \<Rightarrow> Inl e
      | Inr (u, w1) \<Rightarrow> getMetadata pw page w1)"

fun shiftTabStepAt ::
  "'w extraction \<Rightarrow> 'w playwright \<Rightarrow> nat \<Rightarrow> 'w \<Rightarrow> nat \<Rightarrow> (FocusTarget option, 'w) outcome" where
  "shiftTabStepAt getMetadata pw page w 0 = shiftTabStep getMetadata pw page w"
| "shiftTabStepAt getMetadata pw page w (Suc k) =
     (case shiftTabStep getMetadata pw page w of
        Inl e \<Rightarrow> Inl e
      | Inr (t, w') \<Rightarrow> shiftTabStepAt getMetadata pw page w' k)"

text \<open>Step \<open>k\<close> extracts an element whose pair is that of the expected entry.\<close>

definition stepYields ::
  "'w extraction \<Rightarrow> 'w playwright \<Rightarrow> nat \<Rightarrow> 'w \<Rightarrow> nat \<Rightarrow> FocusTarget \<Rightarrow> bool" where
  "stepYields getMetadata pw page w k expected =
     (case shiftTabStepAt getMetadata pw page w k of
        Inl e \<Rightarrow> False
      | Inr (None, w') \<Rightarrow> False
      | Inr (Some t, w') \<Rightarrow> pairOf t = pairOf expected)"

text \<open>
  Step \<open>k\<close> extracts nothing, or an element with another pair, and leaves
  the world \<open>w'\<close>.
\<close>

definition stepMisses ::
  "'w extraction \<Rightarrow> 'w playwright \<Rightarrow> nat \<Rightarrow> 'w \<Rightarrow> nat \<Rightarrow> FocusTarget \<Rightarrow> 'w \<Rightarrow> bool" where
  "stepMisses getMetadata pw page w k expected w' =
     (case shiftTabStepAt getMetadata pw page w k of
        Inl e \<Rightarrow> False
      | Inr (None, w2) \<Rightarrow> w2 = w'
      | Inr (Some t, w2) \<Rightarrow> w2 = w' \<and> pairOf t \<noteq> pairOf expected)"

section \<open>A page of links\<close>

text \<open>
  The page of scenarios A and B of the specification: \<open>k\<close> links with
  distinct labels under the body. Address 0 is the root element, 1 the body,
  \<open>n + 1\<close> link number \<open>n\<close>. The scripts of the page declare no global names.
\<close>

definition linksNode :: "nat \<Rightarrow> nat \<Rightarrow> element" where
  "linksNode k n =
     (if n = 0 then
        \<lparr> tagName = ''HTML'', attributes = (\<lambda>a. None), classList = [],
          parentElement = None, children = [1], textContent = ''go'',
          outerHTML = ''<html><body>go</body></html>'', interface = HTMLElementOther \<rparr>
      else if n = 1 then
        \<lparr> tagName = ''BODY'', attributes = (\<lambda>a. None), classList = [],
          parentElement = Some 0, children = [2 ..< k + 2], textContent = ''go'',
          outerHTML = ''<body>go</body>'', interface = HTMLElementOther \<rparr>
      else
        \<lparr> tagName = ''A'',
          attributes = (\<lambda>a. if a = ''aria-label'' then Some (''Link '' @ natToString (n - 1))
                            else if a = ''href'' then Some ''#'' else None),
          classList = [''nav''],
          parentElement = Some 1, children = [], textContent = ''go'',
          outerHTML = ''<a class=nav href=# aria-label=Link>go</a>'',
          interface = HTMLElementOther \<rparr>)"

definition linksDocument :: "nat \<Rightarrow> nat \<Rightarrow> document" where
  "linksDocument k focus =
     \<lparr> node = linksNode k, allElements = [0 ..< k + 2], body = Some 1,
       documentElement = Some 0,
       activeElement = Some (if 2 \<le> focus \<and> focus < k + 2 then focus else 1),
       globalBuildSelector = None, globalDeriveAccessibleName = None \<rparr>"

text \<open>
  A browser on that page. The world is the address of the focused element.
  Tab after the last link leaves the page (the body has the focus), or goes
  back to the first link when \<open>wraps\<close> is set.
\<close>

definition linksBrowser :: "nat \<Rightarrow> bool \<Rightarrow> nat playwright" where
  "linksBrowser k wraps =
     \<lparr> launch = (\<lambda>opts w. Inr (0, w)),
       newContext = (\<lambda>b w. Inr (0, w)),
       newPage = (\<lambda>c w. Inr (0, w)),
       goto = (\<lambda>p u w. Inr ((), 1)),
       waitForTimeout = (\<lambda>p ms w. Inr ((), w)),
       keyboardPress = (\<lambda>p key w.
          Inr ((), if key = ''Tab''
                   then (if w < k + 1 then w + 1 else if wraps then 2 else 1)
                   else if key = ''Shift+Tab''
                   then (if 2 < w then w - 1 else if wraps then k + 1 else 1)
                   else w)),
       evaluateBlurAndScroll = (\<lambda>p w. Inr ((), 1)),
       evaluateFocus = (\<lambda>p sel w.
          case find (\<lambda>n. buildSelector (linksDocument k n) n = sel) [2 ..< k + 2] of
            None \<Rightarrow> Inr (False, w)
          | Some n \<Rightarrow> Inr (True, n)),
       liveDocument = (\<lambda>p w. Inr (linksDocument k w, w)),
       closePage = (\<lambda>p w. Inr ((), w)),
       closeContext = (\<lambda>c w. Inr ((), w)),
       closeBrowser = (\<lambda>b w. Inr ((), w)),
       evaluateRejection = (\<lambda>e. case e of
                                   ErrorObject m \<Rightarrow> ErrorObject (''page.evaluate: '' @ m)
                                 | OtherValue \<Rightarrow> OtherValue) \<rparr>"

text \<open>
  The same page with scripts that declare the two global functions
  \<^verbatim>\<open>buildSelector\<close> and \<^verbatim>\<open>deriveAccessibleName\<close>, doing what the functions of
  these names in \<^verbatim>\<open>src/actions.ts\<close> do, and a browser on it.
\<close>

definition helperLinksDocument :: "nat \<Rightarrow> nat \<Rightarrow> document" where
  "helperLinksDocument k focus =
     (linksDocument k focus)
       \<lparr> globalBuildSelector := Some (\<lambda>el. Inr (buildSelector (linksDocument k focus) el)),
         globalDeriveAccessibleName :=
           Some (\<lambda>el. Inr (deriveAccessibleName (linksDocument k focus) el)) \<rparr>"

definition helperLinksBrowser :: "nat \<Rightarrow> bool \<Rightarrow> nat playwright" where
  "helperLinksBrowser k wraps =
     (linksBrowser k wraps) \<lparr> liveDocument := (\<lambda>p w. Inr (helperLinksDocument k w, w)) \<rparr>"

text \<open>The snapshot of link number \<open>n\<close>, and the walk over three links.\<close>

definition linkTarget :: "nat \<Rightarrow> FocusTarget" where
  "linkTarget n =
     \<lparr> selector = ''html > body > a.nav:nth-of-type('' @ natToString n @ '')'',
       tag = ''a'', role = None, name = Some (''Link '' @ natToString n),
       hasAccessibleName = True,
       htmlSnippet = ''<a class=nav href=# aria-label=Link>go</a>'' \<rparr>"

definition linksVisited :: "FocusTarget list" where
  "linksVisited = [linkTarget 1, linkTarget 2, linkTarget 3]"

definition linksReport :: "bool \<Rightarrow> TabOrderReport" where
  "linksReport cyc =
     \<lparr> visited = linksVisited, cycleDetected = cyc, limitReached = False,
       shiftTabConsistent = Some True \<rparr>"

section \<open>Notions of the specification: selectors, names, images\<close>

text \<open>
  The element and its ancestors, nearest first, at most \<open>n\<close> of them.
\<close>

fun ancestry :: "document \<Rightarrow> nat \<Rightarrow> nat \<Rightarrow> nat list" where
  "ancestry doc 0 el = []"
| "ancestry doc (Suc n) el =
     el # (case parentElement (node doc el) of None \<Rightarrow> [] | Some p \<Rightarrow> ancestry doc n p)"

text \<open>
  The children of the element's parent that have the element's tag name, in
  their order; the element itself is one of them.
\<close>

definition sameTagChildren :: "document \<Rightarrow> nat \<Rightarrow> nat list" where
  "sameTagChildren doc el =
     (case parentElement (node doc el) of
        None \<Rightarrow> []
      | Some p \<Rightarrow> filter (\<lambda>c. tagName (node doc c) = tagName (node doc el))
                    (children (node doc p)))"

text \<open>
  The same-tag siblings of the element: the other children of its parent that
  have its tag name.
\<close>

definition sameTagSiblings :: "document \<Rightarrow> nat \<Rightarrow> nat list" where
  "sameTagSiblings doc el =
     (case parentElement (node doc el) of
        None \<Rightarrow> []
      | Some p \<Rightarrow> filter (\<lambda>c. tagName (node doc c) = tagName (node doc el))
                    (remove1 el (children (node doc p))))"

text \<open>The position of the first \<open>x\<close> in \<open>xs\<close>, counted from 1.\<close>

definition positionIn :: "'a list \<Rightarrow> 'a \<Rightarrow> nat" where
  "positionIn xs x = Suc (length (takeWhile (\<lambda>y. y \<noteq> x) xs))"

text \<open>
  Escaping in the words of the specification: a backslash before each of
  \<^verbatim>\<open>! " # $ % & ' ( ) * + , . / : ; < = > ? @ [ \ ] ^ ` { | } ~\<close> and before a
  space.
\<close>

definition escapedCharacters :: "char list" where
  "escapedCharacters =
     ''!#$%&()*+,./:;<=>?@[]^{|}~ '' @ [CHR 0x22, CHR 0x27, CHR 0x5C, CHR 0x60]"

fun specEscape :: "string \<Rightarrow> string" where
  "specEscape [] = []"
| "specEscape (c # cs) =
     (if c \<in> set escapedCharacters then CHR 0x5C # c # specEscape cs else c # specEscape cs)"

text \<open>
  The \<^verbatim>\<open>:nth-of-type\<close> part of a segment: the position of the element among
  the children of its parent that have its tag name.
\<close>

definition nthOfType :: "document \<Rightarrow> nat \<Rightarrow> string" where
  "nthOfType doc el =
     '':nth-of-type('' @ natToString (positionIn (sameTagChildren doc el) el) @ '')''"

text \<open>
  A path segment as the claim words it: the lowercase tag name, then the
  escaped classes, each after a dot, then the index when the element has more
  than one same-tag sibling.
\<close>

definition claimedSegment :: "document \<Rightarrow> nat \<Rightarrow> string" where
  "claimedSegment doc el =
     toLowerCase (tagName (node doc el))
     @ concat (map (\<lambda>c. ''.'' @ specEscape c) (classList (node doc el)))
     @ (if 1 < length (sameTagSiblings doc el) then nthOfType doc el else [])"

text \<open>The same with the index when the element has a same-tag sibling at all.\<close>

definition specSegment :: "document \<Rightarrow> nat \<Rightarrow> string" where
  "specSegment doc el =
     toLowerCase (tagName (node doc el))
     @ concat (map (\<lambda>c. ''.'' @ specEscape c) (classList (node doc el)))
     @ (if sameTagSiblings doc el \<noteq> [] then nthOfType doc el else [])"

text \<open>An element with a parent is among the children of that parent.\<close>

definition childOfParent :: "document \<Rightarrow> nat \<Rightarrow> bool" where
  "childOfParent doc el =
     (case parentElement (node doc el) of
        None \<Rightarrow> True
      | Some p \<Rightarrow> el \<in> set (children (node doc p)))"

text \<open>The entry of \<open>imagesMissingAlt\<close> for an image.\<close>

definition imageDescriptor :: "document \<Rightarrow> nat \<Rightarrow> image_descriptor" where
  "imageDescriptor doc img =
     \<lparr> src = attributes (node doc img) ''src'',
       snippet = take 160 (outerHTML (node doc img)) \<rparr>"

text \<open>
  Missing alt text as the specification words it: no \<^verbatim>\<open>alt\<close> attribute, or an
  \<^verbatim>\<open>alt\<close> that is empty after trimming on an image with no \<^verbatim>\<open>role\<close> attribute.
\<close>

definition specMissingAlt :: "document \<Rightarrow> nat \<Rightarrow> bool" where
  "specMissingAlt doc img =
     (case attributes (node doc img) ''alt'' of
        None \<Rightarrow> True
      | Some alt \<Rightarrow> trim alt = [] \<and> attributes (node doc img) ''role'' = None)"

text \<open>
  The same with an empty \<^verbatim>\<open>role\<close> attribute counted as no role.
\<close>

definition lacksUsableAlt :: "document \<Rightarrow> nat \<Rightarrow> bool" where
  "lacksUsableAlt doc img =
     (case attributes (node doc img) ''alt'' of
        None \<Rightarrow> True
      | Some alt \<Rightarrow>
          trim alt = []
          \<and> (attributes (node doc img) ''role'' = None
             \<or> attributes (node doc img) ''role'' = Some []))"

section \<open>A page of images and controls\<close>

text \<open>
  Address 0 is the root element, 1 the body; under the body are four images
  (2 to 5), a button (6), a text field (7) and a fifth image (8), whose
  \<^verbatim>\<open>alt\<close> is a no-break space and a space. The scripts of the page declare no
  global names.
\<close>

definition galleryAttributes :: "nat \<Rightarrow> (string \<times> string) list" where
  "galleryAttributes n =
     (if n = 2 then [(''id'', ''logo.main''), (''src'', ''b.png''), (''alt'', ''logo'')]
      else if n = 3 then [(''src'', ''a.png'')]
      else if n = 4 then [(''alt'', []), (''role'', [])]
      else if n = 5 then [(''src'', ''c.png''), (''alt'', ''  ''), (''role'', ''presentation'')]
      else if n = 6 then [(''aria-label'', [CHR 0xA0, CHR 0x09] @ ''Save  ''), (''title'', ''Store''),
                          (''aria-labelledby'', ''logo.main'')]
      else if n = 7 then [(''placeholder'', ''Name''), (''name'', ''n'')]
      else if n = 8 then [(''src'', ''d.png''), (''alt'', [CHR 0xA0, CHR 0x20])]
      else [])"

definition galleryNode :: "nat \<Rightarrow> element" where
  "galleryNode n =
     \<lparr> tagName = (if n = 0 then ''HTML'' else if n = 1 then ''BODY''
                  else if n = 6 then ''BUTTON'' else if n = 7 then ''INPUT'' else ''IMG''),
       attributes = map_of (galleryAttributes n),
       classList = (if n = 6 then [''btn'', ''btn:primary''] else []),
       parentElement = (if n = 0 then None else if n = 1 then Some 0 else Some 1),
       children = (if n = 0 then [1] else if n = 1 then [2, 3, 4, 5, 6, 7, 8] else []),
       textContent = (if n = 6 then ''Save it'' else []),
       outerHTML = (if n = 3 then ''<img src=a.png>'' else if n = 4 then ''<img alt role>''
                    else if n = 8 then ''<img src=d.png alt>'' else ''<x>''),
       interface = (if n = 7 then HTMLInputElement
                    else if n = 8 \<or> (2 \<le> n \<and> n \<le> 5) then HTMLImageElement
                    else HTMLElementOther) \<rparr>"

definition galleryDocument :: document where
  "galleryDocument =
     \<lparr> node = galleryNode, allElements = [0, 1, 2, 3, 4, 5, 6, 7, 8], body = Some 1,
       documentElement = Some 0, activeElement = Some 6,
       globalBuildSelector = None, globalDeriveAccessibleName = None \<rparr>"

section \<open>The check\<close>

record AccessibilityCheckState =
  ok :: bool
  summary :: string
  url :: "string option"
  tabOrder :: "TabOrderReport option"
  aria :: "AriaReport option"
  errors :: "string list option"

text \<open>\<^verbatim>\<open>error instanceof Error ? error.message : 'Unknown error'\<close>\<close>

definition errorMessage :: "thrown \<Rightarrow> string" where
  "errorMessage e = (case e of ErrorObject m \<Rightarrow> m | OtherValue \<Rightarrow> ''Unknown error'')"

text \<open>The three object literals that the check returns.\<close>

definition missingUrlState :: AccessibilityCheckState where
  "missingUrlState =
     \<lparr> ok = False, summary = ''Please provide a URL to check.'', url = None,
       tabOrder = None, aria = None, errors = Some [''Missing URL''] \<rparr>"

definition successState :: "string \<Rightarrow> TabOrderReport \<Rightarrow> AriaReport \<Rightarrow> AccessibilityCheckState" where
  "successState normalizedUrl t a =
     \<lparr> ok = True, summary = ''Accessibility quick-check completed for '' @ normalizedUrl,
       url = Some normalizedUrl, tabOrder = Some t, aria = Some a, errors = None \<rparr>"

definition failureState :: "string \<Rightarrow> thrown \<Rightarrow> AccessibilityCheckState" where
  "failureState normalizedUrl e =
     \<lparr> ok = False, summary = ''Unable to complete accessibility check for '' @ normalizedUrl,
       url = Some normalizedUrl, tabOrder = None, aria = None,
       errors = Some [errorMessage e] \<rparr>"

subsection \<open>\<^verbatim>\<open>src/actions.ts\<close>\<close>

text \<open>\<^verbatim>\<open>formData.get('url')\<close> is null, a string or a file.\<close>

datatype form_value = FormString string | FormFile

text \<open>\<^verbatim>\<open>(formData.get('url') || '').toString().trim()\<close>\<close>

definition formUrl :: "form_value option \<Rightarrow> string" where
  "formUrl v =
     trim (case v of
             None \<Rightarrow> []
           | Some (FormString s) \<Rightarrow> s
           | Some FormFile \<Rightarrow> ''[object File]'')"

text \<open>
  The \<^verbatim>\<open>try\<close> block of \<^verbatim>\<open>checkAccessibilityAction\<close>: the value of the
  variable \<^verbatim>\<open>browser\<close> when the block is left, with the library it came
  from, and what the block returned or threw. \<open>imported\<close> is the outcome of
  \<^verbatim>\<open>import('playwright')\<close>. The options of \<^verbatim>\<open>goto\<close> are left to the browser.
\<close>

definition actionTry ::
  "thrown + 'w playwright \<Rightarrow> string \<Rightarrow> 'w
     \<Rightarrow> ('w playwright \<times> nat) option \<times> (TabOrderReport \<times> AriaReport, 'w) outcome" where
  "actionTry imported normalizedUrl w =
     (case imported of
        Inl e \<Rightarrow> (None, Inl (e, w))
      | Inr pw \<Rightarrow>
          (case launch pw \<lparr> launchArgs = None, launchExecutablePath = None, headless = True \<rparr> w of
             Inl e \<Rightarrow> (None, Inl e)
           | Inr (browser, w1) \<Rightarrow>
               (Some (pw, browser),
                (case newPage pw browser w1 of
                   Inl e \<Rightarrow> Inl e
                 | Inr (page, w2) \<Rightarrow>
                (case goto pw page normalizedUrl w2 of
                   Inl e \<Rightarrow> Inl e
                 | Inr (u, w3) \<Rightarrow>
                (case waitForTimeout pw page 250 w3 of
                   Inl e \<Rightarrow> Inl e
                 | Inr (u, w4) \<Rightarrow>
                (case buildTabOrderReport_actions pw page w4 of
                   Inl e \<Rightarrow> Inl e
                 | Inr (t, w5) \<Rightarrow>
                (case getAriaReport pw page w5 of
                   Inl e \<Rightarrow> Inl e
                 | Inr (a, w6) \<Rightarrow> Inr ((t, a), w6)))))))))"

text \<open>
  \<^verbatim>\<open>checkAccessibilityAction\<close>: the \<^verbatim>\<open>catch\<close> clause turns what the block
  threw into the failure state; \<^verbatim>\<open>finally\<close> awaits \<^verbatim>\<open>browser?.close()\<close>, and
  when that rejects the action rejects.
\<close>

definition checkAccessibilityAction ::
  "thrown + 'w playwright \<Rightarrow> form_value option \<Rightarrow> 'w \<Rightarrow> (AccessibilityCheckState, 'w) outcome" where
  "checkAccessibilityAction imported v w =
     (let rawUrl = formUrl v in
      if rawUrl = [] then Inr (missingUrlState, w)
      else
        (let normalizedUrl = normalizeUrl rawUrl;
             (browser, res) = actionTry imported normalizedUrl w;
             (state, w') = (case res of
                              Inr ((t, a), w') \<Rightarrow> (successState normalizedUrl t a, w')
                            | Inl (e, w') \<Rightarrow> (failureState normalizedUrl e, w'))
         in case browser of
              None \<Rightarrow> Inr (state, w')
            | Some (pw, b) \<Rightarrow>
                (case closeBrowser pw b w' of
                   Inl e \<Rightarrow> Inl e
                 | Inr (u, w'') \<Rightarrow> Inr (state, w''))))"

subsection \<open>\<^verbatim>\<open>src/app/api/check/route.ts\<close>\<close>

text \<open>
  The \<^verbatim>\<open>url\<close> property of the parsed body: not there (or null, or the body
  is not an object), a string, or another value, given by what its
  \<^verbatim>\<open>toString()\<close> returns. A body that is not JSON makes \<^verbatim>\<open>req.json()\<close> reject.
\<close>

datatype url_field = UrlMissing | UrlString string | UrlOther string

datatype request_body = InvalidJson | JsonBody url_field

record http_response =
  status :: nat
  payload :: AccessibilityCheckState

text \<open>
  What the handler finds around it: whether \<^verbatim>\<open>process.env.VERCEL\<close> is set and
  not \<^verbatim>\<open>"false"\<close>, the outcome of \<^verbatim>\<open>import("playwright")\<close>, the
  \<^verbatim>\<open>playwright-core\<close> library, and \<^verbatim>\<open>chromium.args\<close> and
  \<^verbatim>\<open>chromium.executablePath()\<close> of the serverless browser package.
\<close>

record 'w environment =
  isVercel :: bool
  importLocal :: "thrown + 'w playwright"
  playwrightCore :: "'w playwright"
  chromiumArgs :: "string list"
  chromiumExecutablePath :: "'w \<Rightarrow> (string, 'w) outcome"

definition resolvePlaywright :: "'w environment \<Rightarrow> 'w playwright" where
  "resolvePlaywright env =
     (if isVercel env then playwrightCore env
      else (case importLocal env of
              Inr localPlaywright \<Rightarrow> localPlaywright
            | Inl e \<Rightarrow> playwrightCore env))"

definition buildLaunchOptions :: "'w environment \<Rightarrow> 'w \<Rightarrow> (launch_options, 'w) outcome" where
  "buildLaunchOptions env w =
     (if \<not> isVercel env
      then Inr (\<lparr> launchArgs = None, launchExecutablePath = None, headless = True \<rparr>, w)
      else (case chromiumExecutablePath env w of
              Inl e \<Rightarrow> Inl e
            | Inr (executablePath, w') \<Rightarrow>
                Inr (\<lparr> launchArgs = Some (chromiumArgs env),
                        launchExecutablePath = Some executablePath, headless = True \<rparr>, w')))"

text \<open>\<^verbatim>\<open>(payload as { url?: unknown })?.url?.toString().trim() ?? ""\<close>\<close>

definition bodyUrl :: "url_field \<Rightarrow> string" where
  "bodyUrl u = (case u of UrlMissing \<Rightarrow> [] | UrlString s \<Rightarrow> trim s | UrlOther s \<Rightarrow> trim s)"

text \<open>
  The \<^verbatim>\<open>try\<close> block of \<^verbatim>\<open>POST\<close>: the variables \<^verbatim>\<open>browser\<close>, \<^verbatim>\<open>context\<close> and
  \<^verbatim>\<open>page\<close> when the block is left, and what it returned or threw.
\<close>

definition routeTry ::
  "'w environment \<Rightarrow> 'w playwright \<Rightarrow> string \<Rightarrow> 'w
     \<Rightarrow> (nat option \<times> nat option \<times> nat option) \<times> (TabOrderReport \<times> AriaReport, 'w) outcome" where
  "routeTry env pw normalizedUrl w =
     (case buildLaunchOptions env w of
        Inl e \<Rightarrow> ((None, None, None), Inl e)
      | Inr (launchOptions, w0) \<Rightarrow>
     (case launch pw launchOptions w0 of
        Inl e \<Rightarrow> ((None, None, None), Inl e)
      | Inr (browser, w1) \<Rightarrow>
     (case newContext pw browser w1 of
        Inl e \<Rightarrow> ((Some browser, None, None), Inl e)
      | Inr (context, w2) \<Rightarrow>
     (case newPage pw context w2 of
        Inl e \<Rightarrow> ((Some browser, Some context, None), Inl e)
      | Inr (page, w3) \<Rightarrow>
          ((Some browser, Some context, Some page),
           (case goto pw page normalizedUrl w3 of
              Inl e \<Rightarrow> Inl e
            | Inr (u, w4) \<Rightarrow>
           (case waitForTimeout pw page 250 w4 of
              Inl e \<Rightarrow> Inl e
            | Inr (u, w5) \<Rightarrow>
           (case buildTabOrderReport_route pw page w5 of
              Inl e \<Rightarrow> Inl e
            | Inr (t, w6) \<Rightarrow>
           (case getAriaReport pw page w6 of
              Inl e \<Rightarrow> Inl e
            | Inr (a, w7) \<Rightarrow>
           (case closeContext pw context w7 of
              Inl e \<Rightarrow> Inl e
            | Inr (u, w8) \<Rightarrow> Inr ((t, a), w8)))))))))))"

text \<open>\<^verbatim>\<open>await x?.close().catch(() => {})\<close>\<close>

definition closeQuietly ::
  "(nat \<Rightarrow> 'w \<Rightarrow> (unit, 'w) outcome) \<Rightarrow> nat option \<Rightarrow> 'w \<Rightarrow> 'w" where
  "closeQuietly close h w =
     (case h of
        None \<Rightarrow> w
      | Some x \<Rightarrow> (case close x w of Inl (e, w') \<Rightarrow> w' | Inr (u, w') \<Rightarrow> w'))"

definition POST :: "'w environment \<Rightarrow> request_body \<Rightarrow> 'w \<Rightarrow> http_response \<times> 'w" where
  "POST env reqBody w =
     (case reqBody of
        InvalidJson \<Rightarrow>
          (\<lparr> status = 400,
              payload = \<lparr> ok = False, summary = ''Invalid request payload.'', url = None,
                          tabOrder = None, aria = None,
                          errors = Some [''Expected JSON body with a url field.''] \<rparr> \<rparr>, w)
      | JsonBody u \<Rightarrow>
          (let rawUrl = bodyUrl u in
           if rawUrl = [] then (\<lparr> status = 400, payload = missingUrlState \<rparr>, w)
           else
             (let normalizedUrl = normalizeUrl rawUrl;
                  pw = resolvePlaywright env;
                  ((browser, context, page), res) = routeTry env pw normalizedUrl w;
                  (response, w') =
                    (case res of
                       Inr ((t, a), w') \<Rightarrow>
                         (\<lparr> status = 200, payload = successState normalizedUrl t a \<rparr>, w')
                     | Inl (e, w') \<Rightarrow>
                         (\<lparr> status = 500, payload = failureState normalizedUrl e \<rparr>, w'))
              in (response,
                  closeQuietly (closeBrowser pw) browser
                    (closeQuietly (closeContext pw) context
                      (closeQuietly (closePage pw) page w'))))))"

subsection \<open>The two shapes of a result\<close>

definition successShape :: "AccessibilityCheckState \<Rightarrow> bool" where
  "successShape s = (ok s \<and> tabOrder s \<noteq> None \<and> aria s \<noteq> None \<and> errors s = None)"

definition failureShape :: "AccessibilityCheckState \<Rightarrow> bool" where
  "failureShape s =
     (\<not> ok s \<and> (case errors s of None \<Rightarrow> False | Some ms \<Rightarrow> ms \<noteq> [])
      \<and> tabOrder s = None \<and> aria s = None)"

text \<open>
  A \<^verbatim>\<open>url\<close> that is missing, empty or made of white space only, in the
  form and in the request body.
\<close>

definition blankFormUrl :: "form_value option \<Rightarrow> bool" where
  "blankFormUrl v =
     (case v of
        None \<Rightarrow> True
      | Some (FormString s) \<Rightarrow> list_all isWhiteSpace s
      | Some FormFile \<Rightarrow> False)"

definition blankBodyUrl :: "url_field \<Rightarrow> bool" where
  "blankBodyUrl u =
     (case u of
        UrlMissing \<Rightarrow> True
      | UrlString s \<Rightarrow> list_all isWhiteSpace s
      | UrlOther s \<Rightarrow> False)"

text \<open>The environment of a development machine with the browser of the page of links.\<close>

definition linksEnvironment :: "nat environment" where
  "linksEnvironment =
     \<lparr> isVercel = False, importLocal = Inr (linksBrowser 3 False),
       playwrightCore = linksBrowser 3 False, chromiumArgs = [],
       chromiumExecutablePath = (\<lambda>w. Inl (ErrorObject ''no serverless browser'', w)) \<rparr>"

definition linksState :: AccessibilityCheckState where
  "linksState =
     \<lparr> ok = True, summary = ''Accessibility quick-check completed for https://example.com'',
       url = Some ''https://example.com'', tabOrder = Some (linksReport False),
       aria = Some \<lparr> ariaAttributeCount = 3, imagesMissingAlt = [] \<rparr>, errors = None \<rparr>"

section \<open>Properties\<close>

text \<open>
  The equations of the loops are applied by hand, where a proof needs them.
\<close>

declare natToString.simps [simp del]
declare buildPath.simps [simp del]
declare tabLoop.simps [simp del]

lemma hasHttpScheme_https: "hasHttpScheme (''https://'' @ s)"
  by (simp add: hasHttpScheme_def toLowerCase_def toLowerChar_def
        upperCaseLetters_def lowerCaseLetters_def)

text \<open>
  C10. \<^verbatim>\<open>normalizeUrl\<close> is idempotent: its result always carries an
  \<^verbatim>\<open>http://\<close> or \<^verbatim>\<open>https://\<close> prefix, in any letter case, and such a string is
  returned as it is.
\<close>

theorem normalizeUrl_idempotent:
  "normalizeUrl (normalizeUrl s) = normalizeUrl s \<and> hasHttpScheme (normalizeUrl s)"
proof (cases "hasHttpScheme s")
  case True
  then show ?thesis by (simp add: normalizeUrl_def)
next
  case False
  have 1: "normalizeUrl s = ''https://'' @ s"
    using False by (simp add: normalizeUrl_def)
  have 2: "normalizeUrl (''https://'' @ s) = ''https://'' @ s"
    using hasHttpScheme_https [of s] unfolding normalizeUrl_def by (simp only: if_True)
  show ?thesis using 1 2 hasHttpScheme_https [of s] by simp
qed

subsection \<open>The forward loop\<close>

lemma samePair_pairOf: "samePair a b = (pairOf a = pairOf b)"
  by (auto simp: samePair_def pairOf_def)

lemma tabLoop_end:
  "\<not> i < m \<Longrightarrow> tabLoop getMetadata pw page m i vis w =
     Inr \<lparr> loopVisited = vis, loopCycleDetected = False,
           loopExit = LoopEnd, iterations = i, loopWorld = w \<rparr>"
  by (subst tabLoop.simps) simp

lemma tabLoop_throw1:
  "i < m \<Longrightarrow> pressAndSettle pw page ''Tab'' w = Inl e \<Longrightarrow> tabLoop getMetadata pw page m i vis w = Inl e"
  by (subst tabLoop.simps) simp

lemma tabLoop_throw2:
  "i < m \<Longrightarrow> pressAndSettle pw page ''Tab'' w = Inr (u, w1)
   \<Longrightarrow> getMetadata pw page w1 = Inl e \<Longrightarrow> tabLoop getMetadata pw page m i vis w = Inl e"
  by (subst tabLoop.simps) simp

lemma tabLoop_absent:
  "i < m \<Longrightarrow> pressAndSettle pw page ''Tab'' w = Inr (u, w1)
   \<Longrightarrow> getMetadata pw page w1 = Inr (None, w2)
   \<Longrightarrow> tabLoop getMetadata pw page m i vis w =
     Inr \<lparr> loopVisited = vis, loopCycleDetected = False,
           loopExit = BreakAbsent, iterations = i + 1, loopWorld = w2 \<rparr>"
  by (subst tabLoop.simps) simp

lemma tabLoop_cycle:
  "i < m \<Longrightarrow> pressAndSettle pw page ''Tab'' w = Inr (u, w1)
   \<Longrightarrow> getMetadata pw page w1 = Inr (Some target, w2)
   \<Longrightarrow> list_ex (\<lambda>item. samePair item target) vis
   \<Longrightarrow> tabLoop getMetadata pw page m i vis w =
     Inr \<lparr> loopVisited = vis, loopCycleDetected = True,
           loopExit = BreakCycle, iterations = i + 1, loopWorld = w2 \<rparr>"
  by (subst tabLoop.simps) simp

lemma tabLoop_append:
  "i < m \<Longrightarrow> pressAndSettle pw page ''Tab'' w = Inr (u, w1)
   \<Longrightarrow> getMetadata pw page w1 = Inr (Some target, w2)
   \<Longrightarrow> \<not> list_ex (\<lambda>item. samePair item target) vis
   \<Longrightarrow> tabLoop getMetadata pw page m i vis w = tabLoop getMetadata pw page m (i + 1) (vis @ [target]) w2"
  by (subst tabLoop.simps) simp

text \<open>The four ways in which the loop gives a result.\<close>

lemma tabLoop_InrE:
  assumes "tabLoop getMetadata pw page m i vis w = Inr lr"
  obtains
    (ended) "\<not> i < m"
      "lr = \<lparr> loopVisited = vis, loopCycleDetected = False,
              loopExit = LoopEnd, iterations = i, loopWorld = w \<rparr>"
  | (absent) u w1 w2 where "i < m" "pressAndSettle pw page ''Tab'' w = Inr (u, w1)"
      "getMetadata pw page w1 = Inr (None, w2)"
      "lr = \<lparr> loopVisited = vis, loopCycleDetected = False,
              loopExit = BreakAbsent, iterations = i + 1, loopWorld = w2 \<rparr>"
  | (cycle) u w1 target w2 where "i < m" "pressAndSettle pw page ''Tab'' w = Inr (u, w1)"
      "getMetadata pw page w1 = Inr (Some target, w2)"
      "list_ex (\<lambda>item. samePair item target) vis"
      "lr = \<lparr> loopVisited = vis, loopCycleDetected = True,
              loopExit = BreakCycle, iterations = i + 1, loopWorld = w2 \<rparr>"
  | (append) u w1 target w2 where "i < m" "pressAndSettle pw page ''Tab'' w = Inr (u, w1)"
      "getMetadata pw page w1 = Inr (Some target, w2)"
      "\<not> list_ex (\<lambda>item. samePair item target) vis"
      "tabLoop getMetadata pw page m (i + 1) (vis @ [target]) w2 = Inr lr"
proof (cases "i < m")
  case False
  with assms ended show ?thesis by (simp add: tabLoop_end)
next
  case lt: True
  show ?thesis
  proof (cases "pressAndSettle pw page ''Tab'' w")
    case (Inl e)
    with assms lt show ?thesis by (simp add: tabLoop_throw1)
  next
    case (Inr p)
    obtain u w1 where p: "p = (u, w1)" by (cases p)
    note ps = Inr[unfolded p]
    show ?thesis
    proof (cases "getMetadata pw page w1")
      case (Inl e)
      with assms lt ps show ?thesis by (simp add: tabLoop_throw2)
    next
      case (Inr q)
      obtain t w2 where q: "q = (t, w2)" by (cases q)
      note ex = Inr[unfolded q]
      show ?thesis
      proof (cases t)
        case None
        with assms lt ps ex absent show ?thesis by (simp add: tabLoop_absent)
      next
        case (Some target)
        show ?thesis
        proof (cases "list_ex (\<lambda>item. samePair item target) vis")
          case True
          with assms lt ps ex Some cycle show ?thesis by (simp add: tabLoop_cycle)
        next
          case False
          with assms lt ps ex Some append show ?thesis by (simp add: tabLoop_append)
        qed
      qed
    qed
  qed
qed

lemma tabLoop_result:
  "tabLoop getMetadata pw page m i vis w = Inr lr \<Longrightarrow> length vis = i \<Longrightarrow> i \<le> m
   \<Longrightarrow> distinct (map pairOf vis)
   \<Longrightarrow> distinct (map pairOf (loopVisited lr))
       \<and> iterations lr \<le> m
       \<and> (loopExit lr = LoopEnd \<longleftrightarrow> length (loopVisited lr) = m)
       \<and> (loopExit lr = LoopEnd \<longleftrightarrow> iterations lr = m \<and> length (loopVisited lr) = m)
       \<and> (loopExit lr \<noteq> LoopEnd \<longleftrightarrow> iterations lr = length (loopVisited lr) + 1)
       \<and> (loopCycleDetected lr \<longleftrightarrow> loopExit lr = BreakCycle)"
proof (induction getMetadata pw page m i vis w rule: tabLoop.induct)
  case (1 getMetadata pw page m i vis w)
  from "1.prems"(1) show ?case
  proof (cases rule: tabLoop_InrE)
    case ended
    with "1.prems" show ?thesis by auto
  next
    case (absent u w1 w2)
    with "1.prems" show ?thesis by auto
  next
    case (cycle u w1 target w2)
    with "1.prems" show ?thesis by auto
  next
    case (append u w1 target w2)
    have d: "distinct (map pairOf (vis @ [target]))"
      using append(4) "1.prems"(4) by (auto simp: list_ex_iff samePair_pairOf)
    have l: "length (vis @ [target]) = i + 1" using "1.prems"(2) by simp
    have b: "i + 1 \<le> m" using append(1) by simp
    show ?thesis
      by (rule "1.IH"[OF append(1) append(2) refl append(3) refl refl append(4) append(5) l b d])
  qed
qed

lemma tabLoop_from_start:
  assumes "tabLoop getMetadata pw page m 0 [] w = Inr lr"
  shows "distinct (map pairOf (loopVisited lr))"
    and "iterations lr \<le> m"
    and "loopExit lr = LoopEnd \<longleftrightarrow> length (loopVisited lr) = m"
    and "loopExit lr = LoopEnd \<longrightarrow> iterations lr = m"
    and "loopExit lr \<noteq> LoopEnd \<longrightarrow> length (loopVisited lr) < m"
    and "loopCycleDetected lr \<longleftrightarrow> loopExit lr = BreakCycle"
proof -
  have r: "distinct (map pairOf (loopVisited lr))
       \<and> iterations lr \<le> m
       \<and> (loopExit lr = LoopEnd \<longleftrightarrow> length (loopVisited lr) = m)
       \<and> (loopExit lr = LoopEnd \<longleftrightarrow> iterations lr = m \<and> length (loopVisited lr) = m)
       \<and> (loopExit lr \<noteq> LoopEnd \<longleftrightarrow> iterations lr = length (loopVisited lr) + 1)
       \<and> (loopCycleDetected lr \<longleftrightarrow> loopExit lr = BreakCycle)"
    by (rule tabLoop_result [OF assms]) simp_all
  from r show "distinct (map pairOf (loopVisited lr))" by blast
  from r show "iterations lr \<le> m" by blast
  from r show "loopExit lr = LoopEnd \<longleftrightarrow> length (loopVisited lr) = m" by blast
  from r show "loopExit lr = LoopEnd \<longrightarrow> iterations lr = m" by blast
  from r have "loopExit lr \<noteq> LoopEnd \<longrightarrow> length (loopVisited lr) + 1 \<le> m" by metis
  then show "loopExit lr \<noteq> LoopEnd \<longrightarrow> length (loopVisited lr) < m" by auto
  from r show "loopCycleDetected lr \<longleftrightarrow> loopExit lr = BreakCycle" by blast
qed

text \<open>A loop that was left by a \<^verbatim>\<open>break\<close> does the same under any larger limit.\<close>

lemma tabLoop_limit_mono:
  "tabLoop getMetadata pw page m i vis w = Inr lr \<Longrightarrow> loopExit lr \<noteq> LoopEnd \<Longrightarrow> m \<le> n
   \<Longrightarrow> tabLoop getMetadata pw page n i vis w = Inr lr"
proof (induction getMetadata pw page m i vis w rule: tabLoop.induct)
  case (1 getMetadata pw page m i vis w)
  from "1.prems"(1) show ?case
  proof (cases rule: tabLoop_InrE)
    case ended
    with "1.prems" show ?thesis by auto
  next
    case (absent u w1 w2)
    with "1.prems"(3) show ?thesis by (simp add: tabLoop_absent)
  next
    case (cycle u w1 target w2)
    with "1.prems"(3) show ?thesis by (simp add: tabLoop_cycle)
  next
    case (append u w1 target w2)
    have "tabLoop getMetadata pw page n (i + 1) (vis @ [target]) w2 = Inr lr"
      by (rule "1.IH"[OF append(1) append(2) refl append(3) refl refl append(4) append(5)
            "1.prems"(2,3)])
    moreover have "i < n" using append(1) "1.prems"(3) by simp
    ultimately show ?thesis using append by (simp add: tabLoop_append)
  qed
qed

text \<open>What a returned report says about the run that made it.\<close>

lemma buildTabOrderReport_InrE:
  assumes "buildTabOrderReport getMetadata m pw page w = Inr (rep, w')"
  obtains u w0 lr where
    "evaluateBlurAndScroll pw page w = Inr (u, w0)"
    "tabLoop getMetadata pw page m 0 [] w0 = Inr lr"
    "verifyShiftTab getMetadata pw page (loopVisited lr) (loopWorld lr) = Inr (shiftTabConsistent rep, w')"
    "visited rep = loopVisited lr"
    "cycleDetected rep = loopCycleDetected lr"
    "limitReached rep = (length (loopVisited lr) = m)"
proof (cases "evaluateBlurAndScroll pw page w")
  case (Inl e)
  with assms show ?thesis by (simp add: buildTabOrderReport_def)
next
  case (Inr p)
  obtain u w0 where p: "p = (u, w0)" by (cases p)
  note blur = Inr[unfolded p]
  show ?thesis
  proof (cases "tabLoop getMetadata pw page m 0 [] w0")
    case (Inl e)
    with assms blur show ?thesis by (simp add: buildTabOrderReport_def)
  next
    case (Inr lr)
    note loop = Inr
    show ?thesis
    proof (cases "verifyShiftTab getMetadata pw page (loopVisited lr) (loopWorld lr)")
      case (Inl e)
      with assms blur loop show ?thesis by (simp add: buildTabOrderReport_def Let_def)
    next
      case (Inr q)
      obtain c w2 where q: "q = (c, w2)" by (cases q)
      from assms blur loop Inr q
      have "rep = \<lparr> visited = loopVisited lr, cycleDetected = loopCycleDetected lr,
                     limitReached = (length (loopVisited lr) = m), shiftTabConsistent = c \<rparr>"
        and "w' = w2"
        by (simp_all add: buildTabOrderReport_def Let_def)
      with that [OF blur loop] Inr q show ?thesis by simp
    qed
  qed
qed

lemma buildTabOrderReport_InrI:
  assumes "evaluateBlurAndScroll pw page w = Inr (u, w0)"
    "tabLoop getMetadata pw page m 0 [] w0 = Inr lr"
    "verifyShiftTab getMetadata pw page (loopVisited lr) (loopWorld lr) = Inr (c, w')"
  shows "buildTabOrderReport getMetadata m pw page w =
     Inr (\<lparr> visited = loopVisited lr, cycleDetected = loopCycleDetected lr,
             limitReached = (length (loopVisited lr) = m), shiftTabConsistent = c \<rparr>, w')"
  using assms unfolding buildTabOrderReport_def by (simp add: Let_def)

subsection \<open>A browser that never rejects\<close>

lemma neverThrows_pressAndSettle:
  assumes "neverThrows pw page"
  shows "\<exists>u w1. pressAndSettle pw page key w = Inr (u, w1)"
proof -
  from assms obtain r where r: "keyboardPress pw page key w = Inr r"
    unfolding neverThrows_def by blast
  obtain u w0 where "r = (u, w0)" by (cases r)
  moreover from assms obtain r' where "waitForTimeout pw page 50 w0 = Inr r'"
    unfolding neverThrows_def by blast
  ultimately show ?thesis using r by (cases r') (simp add: pressAndSettle_def)
qed

lemma neverThrows_extract:
  assumes "neverThrows pw page"
  shows "\<forall>w. \<exists>t w2. getActiveElementMetadata pw page w = Inr (t, w2)"
proof
  fix w
  from assms obtain r where "liveDocument pw page w = Inr r"
    unfolding neverThrows_def by blast
  then show "\<exists>t w2. getActiveElementMetadata pw page w = Inr (t, w2)"
    by (cases r) (simp add: getActiveElementMetadata_def)
qed

lemma tabLoop_returns:
  "neverThrows pw page \<Longrightarrow> \<forall>w. \<exists>t w2. getMetadata pw page w = Inr (t, w2)
   \<Longrightarrow> \<exists>lr. tabLoop getMetadata pw page m i vis w = Inr lr"
proof (induction getMetadata pw page m i vis w rule: tabLoop.induct)
  case (1 getMetadata pw page m i vis w)
  show ?case
  proof (cases "i < m")
    case False
    then show ?thesis by (simp add: tabLoop_end)
  next
    case lt: True
    from neverThrows_pressAndSettle [OF "1.prems"(1)]
    obtain u w1 where ps: "pressAndSettle pw page ''Tab'' w = Inr (u, w1)" by blast
    from "1.prems"(2)
    obtain t w2 where ex: "getMetadata pw page w1 = Inr (t, w2)" by blast
    show ?thesis
    proof (cases t)
      case None
      with lt ps ex show ?thesis by (simp add: tabLoop_absent)
    next
      case (Some target)
      show ?thesis
      proof (cases "list_ex (\<lambda>item. samePair item target) vis")
        case True
        with lt ps ex Some show ?thesis by (simp add: tabLoop_cycle)
      next
        case False
        from "1.IH" [OF lt ps refl ex refl Some False "1.prems"]
        show ?thesis using lt ps ex Some False by (simp add: tabLoop_append)
      qed
    qed
  qed
qed

lemma shiftTabLoop_returns:
  "neverThrows pw page \<Longrightarrow> \<forall>w. \<exists>t w2. getMetadata pw page w = Inr (t, w2)
   \<Longrightarrow> \<exists>r. shiftTabLoop getMetadata pw page vis j w = Inr r"
proof (induction j arbitrary: w)
  case 0
  show ?case by simp
next
  case (Suc j)
  from neverThrows_pressAndSettle [OF Suc.prems(1)]
  obtain u w1 where ps: "pressAndSettle pw page ''Shift+Tab'' w = Inr (u, w1)" by blast
  from Suc.prems(2)
  obtain t w2 where ex: "getMetadata pw page w1 = Inr (t, w2)" by blast
  from Suc.IH [OF Suc.prems, of w2] ps ex show ?case
    by (cases t) (auto simp: Let_def)
qed

lemma verifyShiftTab_returns:
  assumes "neverThrows pw page" "\<forall>w. \<exists>t w2. getMetadata pw page w = Inr (t, w2)"
  shows "\<exists>r. verifyShiftTab getMetadata pw page vis w = Inr r"
proof (cases "length vis \<le> 1")
  case True
  then show ?thesis by (simp add: verifyShiftTab_def)
next
  case False
  from assms(1) obtain r
    where r: "evaluateFocus pw page (selector (vis ! (length vis - 1))) w = Inr r"
    unfolding neverThrows_def by blast
  obtain refocused w1 where "r = (refocused, w1)" by (cases r)
  with False r
    shiftTabLoop_returns [where getMetadata = getMetadata and pw = pw and page = page
      and vis = vis and j = "length vis - 1" and w = w1, OF assms]
  show ?thesis
    by (auto simp: verifyShiftTab_def Let_def)
qed

lemma buildTabOrderReport_returns:
  assumes "neverThrows pw page" "\<forall>w. \<exists>t w2. getMetadata pw page w = Inr (t, w2)"
  shows "\<exists>rep w'. buildTabOrderReport getMetadata m pw page w = Inr (rep, w')"
proof -
  from assms(1) obtain r where r: "evaluateBlurAndScroll pw page w = Inr r"
    unfolding neverThrows_def by blast
  obtain u w0 where r0: "r = (u, w0)" by (cases r)
  from tabLoop_returns [where getMetadata = getMetadata and pw = pw and page = page, OF assms]
  obtain lr where lr: "tabLoop getMetadata pw page m 0 [] w0 = Inr lr"
    by blast
  from verifyShiftTab_returns [where getMetadata = getMetadata and pw = pw and page = page,
      OF assms]
  obtain q where q: "verifyShiftTab getMetadata pw page (loopVisited lr) (loopWorld lr) = Inr q" by blast
  obtain c w' where "q = (c, w')" by (cases q)
  with buildTabOrderReport_InrI [OF r [unfolded r0] lr] q show ?thesis by blast
qed

subsection \<open>The page of links, evaluated\<close>

lemma linksBrowser_neverThrows: "neverThrows (linksBrowser k wraps) page"
  by (auto simp: neverThrows_def linksBrowser_def split: option.splits)

lemma links_walk: "buildTabOrderReport getActiveElementMetadata 30 (linksBrowser 3 False) 0 1 = Inr (linksReport False, 2)"
  by code_simp

lemma links_walk_wrapping:
  "buildTabOrderReport getActiveElementMetadata 30 (linksBrowser 3 True) 0 1 = Inr (linksReport True, 2)"
  by code_simp

lemma links_blur: "evaluateBlurAndScroll (linksBrowser 3 False) 0 1 = Inr ((), 1)"
  by code_simp

lemma links_loop:
  "tabLoop getActiveElementMetadata (linksBrowser 3 False) 0 30 0 [] 1 =
     Inr \<lparr> loopVisited = linksVisited, loopCycleDetected = False,
           loopExit = BreakAbsent, iterations = 4, loopWorld = 1 \<rparr>"
  by code_simp

lemma links_distinct: "distinct (map pairOf linksVisited)"
  by code_simp

subsection \<open>The forward walk\<close>

text \<open>
  C1. In the forward walk of either file (\<open>getMetadata\<close> is the file's
  \<^verbatim>\<open>getActiveElementMetadata\<close>, \<open>m\<close> its limit), when the pair (selector, name) just extracted is
  the pair of an entry visited before, the loop stops there with the cycle
  flag set and the entry is not appended; otherwise the entry is appended and
  the loop goes on. So no two entries of \<open>visited\<close> in a returned report have
  the same pair, and the report says \<open>cycleDetected\<close> exactly when the loop
  was left on a repeated pair.
\<close>

theorem walk_stops_on_repeated_pair:
  "(i < m \<and> pressAndSettle pw page ''Tab'' w = Inr (u, w1)
      \<and> getMetadata pw page w1 = Inr (Some target, w2)
    \<longrightarrow> tabLoop getMetadata pw page m i vis w =
          (if \<exists>item \<in> set vis. pairOf item = pairOf target
           then Inr \<lparr> loopVisited = vis, loopCycleDetected = True,
                      loopExit = BreakCycle, iterations = i + 1, loopWorld = w2 \<rparr>
           else tabLoop getMetadata pw page m (i + 1) (vis @ [target]) w2))
   \<and> (buildTabOrderReport getMetadata m pw page s = Inr (rep, s')
    \<longrightarrow> distinct (map pairOf (visited rep)))
   \<and> (evaluateBlurAndScroll pw page s = Inr (u0, s0) \<and> tabLoop getMetadata pw page m 0 [] s0 = Inr lr
      \<and> buildTabOrderReport getMetadata m pw page s = Inr (rep, s')
    \<longrightarrow> visited rep = loopVisited lr \<and> (cycleDetected rep \<longleftrightarrow> loopExit lr = BreakCycle))"
proof -
  have step: "tabLoop getMetadata pw page m i vis w =
          (if \<exists>item \<in> set vis. pairOf item = pairOf target
           then Inr \<lparr> loopVisited = vis, loopCycleDetected = True,
                      loopExit = BreakCycle, iterations = i + 1, loopWorld = w2 \<rparr>
           else tabLoop getMetadata pw page m (i + 1) (vis @ [target]) w2)"
    if a: "i < m \<and> pressAndSettle pw page ''Tab'' w = Inr (u, w1)
      \<and> getMetadata pw page w1 = Inr (Some target, w2)"
  proof (cases "list_ex (\<lambda>item. samePair item target) vis")
    case True
    then have "\<exists>item \<in> set vis. pairOf item = pairOf target"
      by (simp add: list_ex_iff samePair_pairOf)
    with a True show ?thesis by (simp add: tabLoop_cycle)
  next
    case False
    then have "\<not> (\<exists>item \<in> set vis. pairOf item = pairOf target)"
      by (simp add: list_ex_iff samePair_pairOf)
    with a False show ?thesis by (simp add: tabLoop_append)
  qed
  have dist: "distinct (map pairOf (visited rep))"
    if "buildTabOrderReport getMetadata m pw page s = Inr (rep, s')"
  proof -
    from that obtain u w0 lr where "evaluateBlurAndScroll pw page s = Inr (u, w0)"
      and loop: "tabLoop getMetadata pw page m 0 [] w0 = Inr lr"
      and vis: "visited rep = loopVisited lr"
      by (rule buildTabOrderReport_InrE)
    from tabLoop_from_start(1) [OF loop] vis show ?thesis by simp
  qed
  have flag: "visited rep = loopVisited lr \<and> (cycleDetected rep \<longleftrightarrow> loopExit lr = BreakCycle)"
    if a: "evaluateBlurAndScroll pw page s = Inr (u0, s0) \<and> tabLoop getMetadata pw page m 0 [] s0 = Inr lr
      \<and> buildTabOrderReport getMetadata m pw page s = Inr (rep, s')"
  proof -
    from a have loop: "tabLoop getMetadata pw page m 0 [] s0 = Inr lr" by simp
    from a have "buildTabOrderReport getMetadata m pw page s = Inr (rep, s')" by simp
    then obtain u w0 lr' where "evaluateBlurAndScroll pw page s = Inr (u, w0)"
      "tabLoop getMetadata pw page m 0 [] w0 = Inr lr'" "visited rep = loopVisited lr'"
      "cycleDetected rep = loopCycleDetected lr'"
      by (rule buildTabOrderReport_InrE)
    with a have "visited rep = loopVisited lr" "cycleDetected rep = loopCycleDetected lr"
      by simp_all
    moreover have "loopCycleDetected lr \<longleftrightarrow> loopExit lr = BreakCycle"
      by (rule tabLoop_from_start(6) [OF loop])
    ultimately show ?thesis by simp
  qed
  from step dist flag show ?thesis by blast
qed

theorem walk_stops_on_repeated_pair_witness:
  "(3::nat) < 30
   \<and> pressAndSettle (linksBrowser 3 True) 0 ''Tab'' 4 = Inr ((), 2)
   \<and> getActiveElementMetadata (linksBrowser 3 True) 0 2 = Inr (Some (linkTarget 1), 2)
   \<and> tabLoop getActiveElementMetadata (linksBrowser 3 True) 0 30 3 linksVisited 4 =
       Inr \<lparr> loopVisited = linksVisited, loopCycleDetected = True,
             loopExit = BreakCycle, iterations = 4, loopWorld = 2 \<rparr>
   \<and> evaluateBlurAndScroll (linksBrowser 3 True) 0 1 = Inr ((), 1)
   \<and> tabLoop getActiveElementMetadata (linksBrowser 3 True) 0 30 0 [] 1 =
       Inr \<lparr> loopVisited = linksVisited, loopCycleDetected = True,
             loopExit = BreakCycle, iterations = 4, loopWorld = 2 \<rparr>
   \<and> buildTabOrderReport getActiveElementMetadata 30 (linksBrowser 3 True) 0 1 = Inr (linksReport True, 2)
   \<and> distinct (map pairOf (visited (linksReport True)))
   \<and> cycleDetected (linksReport True)"
proof -
  have h1: "pressAndSettle (linksBrowser 3 True) 0 ''Tab'' 4 = Inr ((), 2)"
    by code_simp
  have h2: "getActiveElementMetadata (linksBrowser 3 True) 0 2 = Inr (Some (linkTarget 1), 2)"
    by code_simp
  have h3: "\<exists>item \<in> set linksVisited. pairOf item = pairOf (linkTarget 1)"
    by code_simp
  have h4: "evaluateBlurAndScroll (linksBrowser 3 True) 0 1 = Inr ((), 1)"
    by code_simp
  have h5: "tabLoop getActiveElementMetadata (linksBrowser 3 True) 0 30 0 [] 1 =
       Inr \<lparr> loopVisited = linksVisited, loopCycleDetected = True,
             loopExit = BreakCycle, iterations = 4, loopWorld = 2 \<rparr>"
    by code_simp
  note h6 = links_walk_wrapping
  from walk_stops_on_repeated_pair [where getMetadata = getActiveElementMetadata
      and i = 3 and m = 30 and pw = "linksBrowser 3 True" and page = 0 and w = 4 and u = "()"
      and ?w1.0 = 2 and target = "linkTarget 1" and ?w2.0 = 2 and vis = linksVisited and s = 1
      and rep = "linksReport True" and s' = 2 and ?u0.0 = "()" and ?s0.0 = 1
      and lr = "\<lparr> loopVisited = linksVisited, loopCycleDetected = True,
             loopExit = BreakCycle, iterations = 4, loopWorld = 2 \<rparr>"]
    h1 h2 h3 h4 h5 h6
  show ?thesis by (simp add: linksReport_def)
qed

text \<open>
  C2. The loop of the forward walk of either file (\<open>getMetadata\<close> is the
  file's \<^verbatim>\<open>getActiveElementMetadata\<close>, \<open>m\<close> its limit) enters its body at most
  the configured number of times, and the walk of
  \<^verbatim>\<open>src/app/api/check/route.ts\<close> returns a report whenever no call of the
  browser rejects. In a returned report \<open>limitReached\<close> holds exactly when the
  loop ran all its iterations and was left because they were used up, not by
  a \<^verbatim>\<open>break\<close> on an absent extraction or on a repeated pair; then
  \<open>cycleDetected\<close> is false.
\<close>

theorem walk_iteration_limit:
  "(neverThrows pw page
    \<longrightarrow> (\<exists>rep w'. buildTabOrderReport getActiveElementMetadata m pw page w = Inr (rep, w')))
   \<and> (evaluateBlurAndScroll pw page w = Inr (u, w0) \<and> tabLoop getMetadata pw page m 0 [] w0 = Inr lr
      \<and> buildTabOrderReport getMetadata m pw page w = Inr (rep, w')
    \<longrightarrow> iterations lr \<le> m
        \<and> (limitReached rep \<longleftrightarrow> iterations lr = m \<and> loopExit lr = LoopEnd)
        \<and> (limitReached rep \<longleftrightarrow> loopExit lr \<noteq> BreakAbsent \<and> loopExit lr \<noteq> BreakCycle)
        \<and> (limitReached rep \<longrightarrow> \<not> cycleDetected rep))"
proof -
  have total: "\<exists>rep w'. buildTabOrderReport getActiveElementMetadata m pw page w = Inr (rep, w')"
    if "neverThrows pw page"
    using that neverThrows_extract [OF that]
    by (rule buildTabOrderReport_returns)
  have bound: "iterations lr \<le> m
        \<and> (limitReached rep \<longleftrightarrow> iterations lr = m \<and> loopExit lr = LoopEnd)
        \<and> (limitReached rep \<longleftrightarrow> loopExit lr \<noteq> BreakAbsent \<and> loopExit lr \<noteq> BreakCycle)
        \<and> (limitReached rep \<longrightarrow> \<not> cycleDetected rep)"
    if a: "evaluateBlurAndScroll pw page w = Inr (u, w0) \<and> tabLoop getMetadata pw page m 0 [] w0 = Inr lr
      \<and> buildTabOrderReport getMetadata m pw page w = Inr (rep, w')"
  proof -
    from a have loop: "tabLoop getMetadata pw page m 0 [] w0 = Inr lr" by simp
    from a have "buildTabOrderReport getMetadata m pw page w = Inr (rep, w')" by simp
    then obtain u' w0' lr' where "evaluateBlurAndScroll pw page w = Inr (u', w0')"
      "tabLoop getMetadata pw page m 0 [] w0' = Inr lr'"
      "cycleDetected rep = loopCycleDetected lr'"
      "limitReached rep = (length (loopVisited lr') = m)"
      by (rule buildTabOrderReport_InrE)
    with a have rep: "cycleDetected rep = loopCycleDetected lr"
      "limitReached rep = (length (loopVisited lr) = m)"
      by simp_all
    note res = tabLoop_from_start [OF loop]
    have ex: "loopExit lr = LoopEnd \<longleftrightarrow> loopExit lr \<noteq> BreakAbsent \<and> loopExit lr \<noteq> BreakCycle"
      by (cases "loopExit lr") simp_all
    from rep res ex show ?thesis by blast
  qed
  from total bound show ?thesis by blast
qed

theorem walk_iteration_limit_witness:
  "neverThrows (linksBrowser 3 False) 0
   \<and> (\<exists>rep w'. buildTabOrderReport getActiveElementMetadata 2 (linksBrowser 3 False) 0 1 = Inr (rep, w'))
   \<and> evaluateBlurAndScroll (linksBrowser 3 False) 0 1 = Inr ((), 1)
   \<and> tabLoop getActiveElementMetadata (linksBrowser 3 False) 0 2 0 [] 1 =
       Inr \<lparr> loopVisited = [linkTarget 1, linkTarget 2], loopCycleDetected = False,
             loopExit = LoopEnd, iterations = 2, loopWorld = 3 \<rparr>
   \<and> buildTabOrderReport getActiveElementMetadata 2 (linksBrowser 3 False) 0 1 =
       Inr (\<lparr> visited = [linkTarget 1, linkTarget 2], cycleDetected = False,
               limitReached = True, shiftTabConsistent = Some True \<rparr>, 2)
   \<and> tabLoop getActiveElementMetadata (linksBrowser 3 False) 0 30 0 [] 1 =
       Inr \<lparr> loopVisited = linksVisited, loopCycleDetected = False,
             loopExit = BreakAbsent, iterations = 4, loopWorld = 1 \<rparr>
   \<and> buildTabOrderReport getActiveElementMetadata 30 (linksBrowser 3 False) 0 1 = Inr (linksReport False, 2)
   \<and> \<not> limitReached (linksReport False)"
proof -
  have h1: "tabLoop getActiveElementMetadata (linksBrowser 3 False) 0 2 0 [] 1 =
       Inr \<lparr> loopVisited = [linkTarget 1, linkTarget 2], loopCycleDetected = False,
             loopExit = LoopEnd, iterations = 2, loopWorld = 3 \<rparr>"
    by code_simp
  have h2: "buildTabOrderReport getActiveElementMetadata 2 (linksBrowser 3 False) 0 1 =
       Inr (\<lparr> visited = [linkTarget 1, linkTarget 2], cycleDetected = False,
               limitReached = True, shiftTabConsistent = Some True \<rparr>, 2)"
    by code_simp
  from walk_iteration_limit [where getMetadata = getActiveElementMetadata
      and pw = "linksBrowser 3 False" and page = 0 and m = 2 and w = 1 and u = "()" and ?w0.0 = 1
      and lr = "\<lparr> loopVisited = [linkTarget 1, linkTarget 2], loopCycleDetected = False,
             loopExit = LoopEnd, iterations = 2, loopWorld = 3 \<rparr>"
      and rep = "\<lparr> visited = [linkTarget 1, linkTarget 2], cycleDetected = False,
               limitReached = True, shiftTabConsistent = Some True \<rparr>" and w' = 2]
    walk_iteration_limit [where getMetadata = getActiveElementMetadata
      and pw = "linksBrowser 3 False" and page = 0 and m = 30 and w = 1 and u = "()" and ?w0.0 = 1
      and lr = "\<lparr> loopVisited = linksVisited, loopCycleDetected = False,
             loopExit = BreakAbsent, iterations = 4, loopWorld = 1 \<rparr>"
      and rep = "linksReport False" and w' = 2]
    linksBrowser_neverThrows [of 3 False 0] links_blur links_loop links_walk h1 h2
  show ?thesis by simp
qed

subsection \<open>The two limits\<close>

text \<open>The loops use the extraction only on the library and the page they run on.\<close>

lemma tabLoop_cong:
  "\<forall>w. g1 pw page w = g2 pw page w
   \<Longrightarrow> tabLoop g1 pw page m i vis w = tabLoop g2 pw page m i vis w"
proof (induction g1 pw page m i vis w rule: tabLoop.induct)
  case (1 g1 pw page m i vis w)
  show ?case
  proof (cases "i < m")
    case False
    then show ?thesis by (simp add: tabLoop_end)
  next
    case lt: True
    show ?thesis
    proof (cases "pressAndSettle pw page ''Tab'' w")
      case (Inl e)
      with lt show ?thesis by (simp add: tabLoop_throw1)
    next
      case (Inr p)
      obtain u w1 where p: "p = (u, w1)" by (cases p)
      note ps = Inr [unfolded p]
      from "1.prems" have same: "g2 pw page w1 = g1 pw page w1" by simp
      show ?thesis
      proof (cases "g1 pw page w1")
        case (Inl e)
        with lt ps same show ?thesis by (simp add: tabLoop_throw2)
      next
        case (Inr q)
        obtain t w2 where q: "q = (t, w2)" by (cases q)
        note ex = Inr [unfolded q]
        show ?thesis
        proof (cases t)
          case None
          with lt ps ex same show ?thesis by (simp add: tabLoop_absent)
        next
          case (Some target)
          show ?thesis
          proof (cases "list_ex (\<lambda>item. samePair item target) vis")
            case True
            with lt ps ex same Some show ?thesis by (simp add: tabLoop_cycle)
          next
            case False
            from "1.IH" [OF lt ps refl ex [unfolded Some] refl refl False "1.prems"]
            show ?thesis using lt ps ex same Some False by (simp add: tabLoop_append)
          qed
        qed
      qed
    qed
  qed
qed

lemma shiftTabLoop_cong:
  "\<forall>w. g1 pw page w = g2 pw page w
   \<Longrightarrow> shiftTabLoop g1 pw page vis j w = shiftTabLoop g2 pw page vis j w"
  by (induction j arbitrary: w)
     (simp_all add: Let_def split: sum.splits prod.splits option.splits)

lemma verifyShiftTab_cong:
  assumes "\<forall>w. g1 pw page w = g2 pw page w"
  shows "verifyShiftTab g1 pw page vis w = verifyShiftTab g2 pw page vis w"
  unfolding verifyShiftTab_def
    shiftTabLoop_cong [where ?g1.0 = g1 and ?g2.0 = g2 and pw = pw and page = page, OF assms]
  by (rule refl)

lemma buildTabOrderReport_cong:
  assumes "\<forall>w. g1 pw page w = g2 pw page w"
  shows "buildTabOrderReport g1 m pw page w = buildTabOrderReport g2 m pw page w"
  unfolding buildTabOrderReport_def
    tabLoop_cong [where ?g1.0 = g1 and ?g2.0 = g2 and pw = pw and page = page, OF assms]
    verifyShiftTab_cong [where ?g1.0 = g1 and ?g2.0 = g2 and pw = pw and page = page, OF assms]
  by (rule refl)

text \<open>The same extraction under the two limits.\<close>

lemma walk_under_larger_limit:
  assumes small: "buildTabOrderReport getMetadata m pw page w = Inr (rep, w')" and "m < n"
  shows "buildTabOrderReport getMetadata n pw page w = Inr (rep, w') \<longleftrightarrow> \<not> limitReached rep"
proof -
  from small obtain u w0 lr where
    blur: "evaluateBlurAndScroll pw page w = Inr (u, w0)" and
    loop: "tabLoop getMetadata pw page m 0 [] w0 = Inr lr" and
    verify: "verifyShiftTab getMetadata pw page (loopVisited lr) (loopWorld lr)
               = Inr (shiftTabConsistent rep, w')" and
    rep: "visited rep = loopVisited lr" "cycleDetected rep = loopCycleDetected lr"
      "limitReached rep = (length (loopVisited lr) = m)"
    by (rule buildTabOrderReport_InrE)
  note res = tabLoop_from_start [OF loop]
  show ?thesis
  proof
    assume "buildTabOrderReport getMetadata n pw page w = Inr (rep, w')"
    then obtain u' w0' lr' where "evaluateBlurAndScroll pw page w = Inr (u', w0')"
      "tabLoop getMetadata pw page n 0 [] w0' = Inr lr'" "visited rep = loopVisited lr'"
      "limitReached rep = (length (loopVisited lr') = n)"
      by (rule buildTabOrderReport_InrE)
    with rep \<open>m < n\<close> show "\<not> limitReached rep" by auto
  next
    assume "\<not> limitReached rep"
    with rep res \<open>m < n\<close> have brk: "loopExit lr \<noteq> LoopEnd"
      and short: "length (loopVisited lr) \<noteq> n"
      by auto
    have "tabLoop getMetadata pw page n 0 [] w0 = Inr lr"
      by (rule tabLoop_limit_mono [OF loop brk]) (use \<open>m < n\<close> in simp)
    from buildTabOrderReport_InrI [OF blur this verify] short rep \<open>\<not> limitReached rep\<close>
    show "buildTabOrderReport getMetadata n pw page w = Inr (rep, w')"
      by simp
  qed
qed

text \<open>
  What the script of \<^verbatim>\<open>src/app/api/check/route.ts\<close> computes does not depend
  on the global names of the page.
\<close>

lemma selectorSegment_node:
  assumes "node d' = node d"
  shows "selectorSegment d' el = selectorSegment d el"
  unfolding selectorSegment_def assms by (rule refl)

lemma buildPath_node:
  "node d' = node d \<Longrightarrow> buildPath d' c depth path = buildPath d c depth path"
proof (induction d c depth path rule: buildPath.induct)
  case (1 doc current depth path)
  note same = "1.prems"
  show ?case
  proof (cases current)
    case None
    then show ?thesis
      by (subst buildPath.simps, subst (2) buildPath.simps) simp
  next
    case (Some cur)
    show ?thesis
    proof (cases "depth < 4")
      case False
      with Some show ?thesis
        by (subst buildPath.simps, subst (2) buildPath.simps) simp
    next
      case True
      have l: "buildPath d' current depth path
          = buildPath d' (parentElement (node d' cur)) (depth + 1) (selectorSegment d' cur # path)"
        using Some True by (subst buildPath.simps) simp
      have r: "buildPath doc current depth path
          = buildPath doc (parentElement (node doc cur)) (depth + 1) (selectorSegment doc cur # path)"
        using Some True by (subst buildPath.simps) simp
      from "1.IH" [OF Some True same] show ?thesis
        unfolding l r by (simp only: same selectorSegment_node [OF same])
    qed
  qed
qed

lemma buildSelector_node:
  assumes "node d' = node d"
  shows "buildSelector d' el = buildSelector d el"
  unfolding buildSelector_def buildPath_node [OF assms] assms by (rule refl)

lemma deriveAccessibleName_node:
  assumes "node d' = node d" "allElements d' = allElements d"
  shows "deriveAccessibleName d' el = deriveAccessibleName d el"
  unfolding deriveAccessibleName_def labelledByText_def getElementById_def assms
  by (rule refl)

lemma helper_script:
  "activeElementMetadata_actions (helperLinksDocument k w)
     = Inr (activeElementMetadata (helperLinksDocument k w))"
proof -
  have n: "node (helperLinksDocument k w) = node (linksDocument k w)"
    and a: "allElements (helperLinksDocument k w) = allElements (linksDocument k w)"
    by (simp_all add: helperLinksDocument_def)
  have g: "globalBuildSelector (helperLinksDocument k w)
        = Some (\<lambda>el. Inr (buildSelector (linksDocument k w) el))"
    and h: "globalDeriveAccessibleName (helperLinksDocument k w)
        = Some (\<lambda>el. Inr (deriveAccessibleName (linksDocument k w) el))"
    by (simp_all add: helperLinksDocument_def)
  show ?thesis
  proof (cases "activeElement (helperLinksDocument k w)")
    case None
    then show ?thesis
      by (simp add: activeElementMetadata_actions_def activeElementMetadata_def)
  next
    case (Some el)
    show ?thesis
    proof (cases "Some el = body (helperLinksDocument k w)
        \<or> Some el = documentElement (helperLinksDocument k w)")
      case True
      with Some show ?thesis
        by (simp add: activeElementMetadata_actions_def activeElementMetadata_def)
    next
      case False
      have "activeElementMetadata_actions (helperLinksDocument k w)
          = Inr (Some \<lparr> selector = buildSelector (linksDocument k w) el,
                tag = toLowerCase (tagName (node (helperLinksDocument k w) el)),
                role = (case attributes (node (helperLinksDocument k w) el) ''role'' of
                          None \<Rightarrow> None
                        | Some r \<Rightarrow> if r = [] then None else Some r),
                name = deriveAccessibleName (linksDocument k w) el,
                hasAccessibleName =
                  (case deriveAccessibleName (linksDocument k w) el of
                     None \<Rightarrow> False
                   | Some n \<Rightarrow> n \<noteq> [] \<and> length (trim n) > 0),
                htmlSnippet = take 160 (outerHTML (node (helperLinksDocument k w) el)) \<rparr>)"
        unfolding activeElementMetadata_actions_def Some using False
        by (simp add: g h del: disj_not1 de_Morgan_disj)
      moreover have "activeElementMetadata (helperLinksDocument k w)
          = Some \<lparr> selector = buildSelector (linksDocument k w) el,
                tag = toLowerCase (tagName (node (helperLinksDocument k w) el)),
                role = (case attributes (node (helperLinksDocument k w) el) ''role'' of
                          None \<Rightarrow> None
                        | Some r \<Rightarrow> if r = [] then None else Some r),
                name = deriveAccessibleName (linksDocument k w) el,
                hasAccessibleName =
                  (case deriveAccessibleName (linksDocument k w) el of
                     None \<Rightarrow> False
                   | Some n \<Rightarrow> n \<noteq> [] \<and> length (trim n) > 0),
                htmlSnippet = take 160 (outerHTML (node (helperLinksDocument k w) el)) \<rparr>"
        unfolding activeElementMetadata_def Some using False
        by (simp add: buildSelector_node [OF n] deriveAccessibleName_node [OF n a] Let_def)
      ultimately show ?thesis by (simp only:)
    qed
  qed
qed

lemma helper_extraction:
  "getActiveElementMetadata_actions (helperLinksBrowser k wraps) page w
     = getActiveElementMetadata (helperLinksBrowser k wraps) page w"
  by (simp add: getActiveElementMetadata_actions_def getActiveElementMetadata_def
        helperLinksBrowser_def helper_script)
text \<open>The two walks on the page of 30 links that declares the two functions.\<close>

lemma helper30_actions:
  "buildTabOrderReport_actions (helperLinksBrowser 30 False) 0 1
       = Inr (\<lparr> visited = map linkTarget [1 ..< 31], cycleDetected = False,
                 limitReached = True, shiftTabConsistent = Some True \<rparr>, 2)"
  by code_simp

lemma helper30_route:
  "buildTabOrderReport_route (helperLinksBrowser 30 False) 0 1
       = Inr (\<lparr> visited = map linkTarget [1 ..< 31], cycleDetected = False,
                 limitReached = False, shiftTabConsistent = Some True \<rparr>, 2)"
  by code_simp

text \<open>
  C4, as claimed: the two walks use one limit and so return equal reports
  over the same page. They do not use one limit: \<^verbatim>\<open>src/actions.ts\<close> stops
  after 30 iterations, \<^verbatim>\<open>src/app/api/check/route.ts\<close> after the 100 of
  \<^verbatim>\<open>src/lib/accessibility-types.ts\<close>. And they do not return equal reports.
  On the page of 30 links that declares the two functions, both walks return
  the same 30 entries, the walk of \<^verbatim>\<open>src/actions.ts\<close> with \<open>limitReached\<close>
  and the walk of \<^verbatim>\<open>src/app/api/check/route.ts\<close> without. On the page of
  three links that declares nothing, the walk of
  \<^verbatim>\<open>src/app/api/check/route.ts\<close> returns its report of three entries, while
  the walk of \<^verbatim>\<open>src/actions.ts\<close> returns none, because \<^verbatim>\<open>page.evaluate\<close>
  rejects at the first link.
\<close>

theorem walk_limits_differ:
  "MAX_TAB_ITERATIONS_actions \<noteq> MAX_TAB_ITERATIONS_lib
   \<and> buildTabOrderReport_actions (helperLinksBrowser 30 False) 0 1
       = Inr (\<lparr> visited = map linkTarget [1 ..< 31], cycleDetected = False,
                 limitReached = True, shiftTabConsistent = Some True \<rparr>, 2)
   \<and> buildTabOrderReport_route (helperLinksBrowser 30 False) 0 1
       = Inr (\<lparr> visited = map linkTarget [1 ..< 31], cycleDetected = False,
                 limitReached = False, shiftTabConsistent = Some True \<rparr>, 2)
   \<and> buildTabOrderReport_actions (helperLinksBrowser 30 False) 0 1
       \<noteq> buildTabOrderReport_route (helperLinksBrowser 30 False) 0 1
   \<and> buildTabOrderReport_route (linksBrowser 3 False) 0 1 = Inr (linksReport False, 2)
   \<and> buildTabOrderReport_actions (linksBrowser 3 False) 0 1
       = Inl (ErrorObject ''page.evaluate: buildSelector is not defined'', 2)
   \<and> buildTabOrderReport_actions (linksBrowser 3 False) 0 1
       \<noteq> buildTabOrderReport_route (linksBrowser 3 False) 0 1"
proof -
  have c: "MAX_TAB_ITERATIONS_actions \<noteq> MAX_TAB_ITERATIONS_lib"
    by (simp add: MAX_TAB_ITERATIONS_actions_def MAX_TAB_ITERATIONS_lib_def)
  note a30 = helper30_actions
  note r30 = helper30_route
  have r: "buildTabOrderReport_route (linksBrowser 3 False) 0 1 = Inr (linksReport False, 2)"
    by code_simp
  have a: "buildTabOrderReport_actions (linksBrowser 3 False) 0 1
       = Inl (ErrorObject ''page.evaluate: buildSelector is not defined'', 2)"
    by code_simp
  have d30: "buildTabOrderReport_actions (helperLinksBrowser 30 False) 0 1
       \<noteq> buildTabOrderReport_route (helperLinksBrowser 30 False) 0 1"
    unfolding a30 r30 by simp
  have d: "buildTabOrderReport_actions (linksBrowser 3 False) 0 1
       \<noteq> buildTabOrderReport_route (linksBrowser 3 False) 0 1"
    unfolding a r by simp
  from c a30 r30 d30 r a d show ?thesis by (simp only: simp_thms)
qed

text \<open>
  C4, amended: the limit is not one constant, it is 30 in \<^verbatim>\<open>src/actions.ts\<close>
  and 100 in \<^verbatim>\<open>src/lib/accessibility-types.ts\<close>, which
  \<^verbatim>\<open>src/app/api/check/route.ts\<close> uses. Both files run the same loop, each on
  its limit and with its \<^verbatim>\<open>getActiveElementMetadata\<close>. With one and the same
  \<^verbatim>\<open>getActiveElementMetadata\<close>, the walk under the limit 30 and the walk under
  the limit 100 return the same report from the same world exactly when the
  report under 30 does not say \<open>limitReached\<close>. So, on a library and a page
  where the \<^verbatim>\<open>getActiveElementMetadata\<close> of the two files have the same
  outcome in every world, a report that the walk of \<^verbatim>\<open>src/actions.ts\<close>
  returns is returned by the walk of \<^verbatim>\<open>src/app/api/check/route.ts\<close> exactly
  when it does not say \<open>limitReached\<close>. Where the outcomes are the same is
  left open.
\<close>

theorem walks_agree_below_limit:
  "MAX_TAB_ITERATIONS_actions = 30 \<and> MAX_TAB_ITERATIONS_lib = 100
   \<and> (buildTabOrderReport getMetadata MAX_TAB_ITERATIONS_actions pw page w = Inr (rep, w')
    \<longrightarrow> (buildTabOrderReport getMetadata MAX_TAB_ITERATIONS_lib pw page w = Inr (rep, w')
          \<longleftrightarrow> \<not> limitReached rep))
   \<and> ((\<forall>v. getActiveElementMetadata_actions pw page v = getActiveElementMetadata pw page v)
      \<and> buildTabOrderReport_actions pw page w = Inr (rep, w')
    \<longrightarrow> (buildTabOrderReport_route pw page w = Inr (rep, w') \<longleftrightarrow> \<not> limitReached rep))"
proof -
  have lt: "MAX_TAB_ITERATIONS_actions < MAX_TAB_ITERATIONS_lib"
    by (simp add: MAX_TAB_ITERATIONS_actions_def MAX_TAB_ITERATIONS_lib_def)
  have same: "buildTabOrderReport g MAX_TAB_ITERATIONS_lib pw page w = Inr (rep, w')
      \<longleftrightarrow> \<not> limitReached rep"
    if "buildTabOrderReport g MAX_TAB_ITERATIONS_actions pw page w = Inr (rep, w')" for g
    using that lt by (rule walk_under_larger_limit)
  have files: "buildTabOrderReport_route pw page w = Inr (rep, w') \<longleftrightarrow> \<not> limitReached rep"
    if a: "(\<forall>v. getActiveElementMetadata_actions pw page v = getActiveElementMetadata pw page v)
      \<and> buildTabOrderReport_actions pw page w = Inr (rep, w')"
  proof -
    from a have agree: "\<forall>v. getActiveElementMetadata_actions pw page v
        = getActiveElementMetadata pw page v"
      by simp
    from a have "buildTabOrderReport getActiveElementMetadata_actions
        MAX_TAB_ITERATIONS_actions pw page w = Inr (rep, w')"
      by (simp add: buildTabOrderReport_actions_def)
    from same [OF this] show ?thesis
      by (simp add: buildTabOrderReport_route_def
            buildTabOrderReport_cong [where ?g1.0 = getActiveElementMetadata_actions
              and ?g2.0 = getActiveElementMetadata and pw = pw and page = page, OF agree])
  qed
  from same [of getMetadata] files show ?thesis
    by (simp add: MAX_TAB_ITERATIONS_actions_def MAX_TAB_ITERATIONS_lib_def)
qed

theorem walks_agree_below_limit_witness:
  "buildTabOrderReport getActiveElementMetadata MAX_TAB_ITERATIONS_actions
       (linksBrowser 3 False) 0 1 = Inr (linksReport False, 2)
   \<and> \<not> limitReached (linksReport False)
   \<and> buildTabOrderReport getActiveElementMetadata MAX_TAB_ITERATIONS_lib
       (linksBrowser 3 False) 0 1 = Inr (linksReport False, 2)
   \<and> (\<forall>v. getActiveElementMetadata_actions (helperLinksBrowser 3 False) 0 v
            = getActiveElementMetadata (helperLinksBrowser 3 False) 0 v)
   \<and> buildTabOrderReport_actions (helperLinksBrowser 3 False) 0 1
       = Inr (linksReport False, 2)
   \<and> buildTabOrderReport_route (helperLinksBrowser 3 False) 0 1
       = Inr (linksReport False, 2)
   \<and> (\<forall>v. getActiveElementMetadata_actions (helperLinksBrowser 30 False) 0 v
            = getActiveElementMetadata (helperLinksBrowser 30 False) 0 v)
   \<and> buildTabOrderReport_actions (helperLinksBrowser 30 False) 0 1
       = Inr (\<lparr> visited = map linkTarget [1 ..< 31], cycleDetected = False,
                 limitReached = True, shiftTabConsistent = Some True \<rparr>, 2)
   \<and> buildTabOrderReport_route (helperLinksBrowser 30 False) 0 1
       \<noteq> Inr (\<lparr> visited = map linkTarget [1 ..< 31], cycleDetected = False,
                 limitReached = True, shiftTabConsistent = Some True \<rparr>, 2)"
proof -
  have a: "buildTabOrderReport getActiveElementMetadata MAX_TAB_ITERATIONS_actions
       (linksBrowser 3 False) 0 1 = Inr (linksReport False, 2)"
    using links_walk by (simp add: MAX_TAB_ITERATIONS_actions_def)
  have b: "\<not> limitReached (linksReport False)"
    by (simp add: linksReport_def)
  have c: "\<forall>v. getActiveElementMetadata_actions (helperLinksBrowser k False) 0 v
            = getActiveElementMetadata (helperLinksBrowser k False) 0 v" for k
    by (simp add: helper_extraction)
  have d: "buildTabOrderReport_actions (helperLinksBrowser 3 False) 0 1
       = Inr (linksReport False, 2)"
    by code_simp
  note e = helper30_actions
  from walks_agree_below_limit [where getMetadata = getActiveElementMetadata
      and pw = "linksBrowser 3 False" and page = 0 and w = 1 and rep = "linksReport False"
      and w' = 2] a b
  have 1: "buildTabOrderReport getActiveElementMetadata MAX_TAB_ITERATIONS_lib
       (linksBrowser 3 False) 0 1 = Inr (linksReport False, 2)"
    by simp
  from walks_agree_below_limit [where getMetadata = getActiveElementMetadata
      and pw = "helperLinksBrowser 3 False" and page = 0 and w = 1
      and rep = "linksReport False" and w' = 2,
      THEN conjunct2, THEN conjunct2, THEN conjunct2] b c [of 3] d
  have 2: "buildTabOrderReport_route (helperLinksBrowser 3 False) 0 1
       = Inr (linksReport False, 2)"
    by simp
  from walks_agree_below_limit [where getMetadata = getActiveElementMetadata
      and pw = "helperLinksBrowser 30 False" and page = 0 and w = 1
      and rep = "\<lparr> visited = map linkTarget [1 ..< 31], cycleDetected = False,
                 limitReached = True, shiftTabConsistent = Some True \<rparr>" and w' = 2,
      THEN conjunct2, THEN conjunct2, THEN conjunct2]
    c [of 30] e
  have 3: "buildTabOrderReport_route (helperLinksBrowser 30 False) 0 1
       \<noteq> Inr (\<lparr> visited = map linkTarget [1 ..< 31], cycleDetected = False,
                 limitReached = True, shiftTabConsistent = Some True \<rparr>, 2)"
    by simp
  from a b 1 c [of 3] d 2 c [of 30] e 3 show ?thesis by (simp only: simp_thms)
qed

subsection \<open>The reverse walk\<close>

lemma shiftTabLoop_Suc:
  "shiftTabLoop getMetadata pw page vis (Suc j) w =
     (case shiftTabStep getMetadata pw page w of
        Inl e \<Rightarrow> Inl e
      | Inr (None, w2) \<Rightarrow> Inr (Some False, w2)
      | Inr (Some target, w2) \<Rightarrow>
          if pairOf target \<noteq> pairOf (vis ! j) then Inr (Some False, w2)
          else shiftTabLoop getMetadata pw page vis j w2)"
  by (auto simp: shiftTabStep_def pairOf_def split: sum.splits prod.splits option.splits)

lemma shiftTabLoop_not_null: "shiftTabLoop getMetadata pw page vis j w \<noteq> Inr (None, w')"
  by (induction j arbitrary: w)
     (auto simp: shiftTabLoop_Suc simp del: shiftTabLoop.simps(2)
           split: sum.splits prod.splits option.splits)

lemma stepYields_0:
  "stepYields getMetadata pw page w 0 expected =
     (case shiftTabStep getMetadata pw page w of
        Inl e \<Rightarrow> False
      | Inr (None, w2) \<Rightarrow> False
      | Inr (Some t, w2) \<Rightarrow> pairOf t = pairOf expected)"
  by (simp add: stepYields_def)

lemma stepYields_Suc:
  "stepYields getMetadata pw page w (Suc k) expected =
     (case shiftTabStep getMetadata pw page w of
        Inl e \<Rightarrow> False
      | Inr (t, w2) \<Rightarrow> stepYields getMetadata pw page w2 k expected)"
  by (simp add: stepYields_def split: sum.splits prod.splits)

lemma stepMisses_0:
  "stepMisses getMetadata pw page w 0 expected w' =
     (case shiftTabStep getMetadata pw page w of
        Inl e \<Rightarrow> False
      | Inr (None, w2) \<Rightarrow> w2 = w'
      | Inr (Some t, w2) \<Rightarrow> w2 = w' \<and> pairOf t \<noteq> pairOf expected)"
  by (simp add: stepMisses_def)

lemma stepMisses_Suc:
  "stepMisses getMetadata pw page w (Suc k) expected w' =
     (case shiftTabStep getMetadata pw page w of
        Inl e \<Rightarrow> False
      | Inr (t, w2) \<Rightarrow> stepMisses getMetadata pw page w2 k expected w')"
  by (simp add: stepMisses_def split: sum.splits prod.splits)

lemma shiftTabLoop_true:
  "(\<exists>w'. shiftTabLoop getMetadata pw page vis j w = Inr (Some True, w'))
     \<longleftrightarrow> (\<forall>k<j. stepYields getMetadata pw page w k (vis ! (j - 1 - k)))"
proof (induction j arbitrary: w)
  case 0
  show ?case by simp
next
  case (Suc j)
  have split: "\<And>P. (\<forall>k<Suc j. P k) \<longleftrightarrow> P 0 \<and> (\<forall>k<j. P (Suc k))"
    by (rule All_less_Suc2)
  show ?case
  proof (cases "shiftTabStep getMetadata pw page w")
    case (Inl e)
    then show ?thesis
      unfolding split by (simp add: shiftTabLoop_Suc stepYields_0 del: shiftTabLoop.simps(2))
  next
    case (Inr r)
    obtain t w2 where r: "r = (t, w2)" by (cases r)
    show ?thesis
    proof (cases t)
      case None
      with Inr r show ?thesis
        unfolding split by (simp add: shiftTabLoop_Suc stepYields_0 del: shiftTabLoop.simps(2))
    next
      case (Some target)
      with Inr r show ?thesis
        unfolding split
        by (simp add: shiftTabLoop_Suc stepYields_0 stepYields_Suc Suc.IH
              del: shiftTabLoop.simps(2))
    qed
  qed
qed

lemma shiftTabLoop_false:
  "shiftTabLoop getMetadata pw page vis j w = Inr (Some False, w')
     \<longleftrightarrow> (\<exists>k<j. stepMisses getMetadata pw page w k (vis ! (j - 1 - k)) w'
                \<and> (\<forall>l<k. stepYields getMetadata pw page w l (vis ! (j - 1 - l))))"
proof (induction j arbitrary: w)
  case 0
  show ?case by simp
next
  case (Suc j)
  have exsplit: "\<And>P. (\<exists>k<Suc j. P k) \<longleftrightarrow> P 0 \<or> (\<exists>k<j. P (Suc k))"
    by (rule Ex_less_Suc2)
  have allsplit: "\<And>P k. (\<forall>l<Suc k. P l) \<longleftrightarrow> P 0 \<and> (\<forall>l<k. P (Suc l))"
    by (rule All_less_Suc2)
  show ?case
  proof (cases "shiftTabStep getMetadata pw page w")
    case (Inl e)
    then show ?thesis
      unfolding exsplit allsplit
      by (simp add: shiftTabLoop_Suc stepMisses_0 stepMisses_Suc del: shiftTabLoop.simps(2))
  next
    case (Inr r)
    obtain t w2 where r: "r = (t, w2)" by (cases r)
    show ?thesis
    proof (cases t)
      case None
      with Inr r show ?thesis
        unfolding exsplit allsplit
        by (simp add: shiftTabLoop_Suc stepMisses_0 stepMisses_Suc stepYields_0
              del: shiftTabLoop.simps(2))
    next
      case (Some target)
      with Inr r show ?thesis
        unfolding exsplit allsplit
        by (simp add: shiftTabLoop_Suc stepMisses_0 stepMisses_Suc stepYields_0 stepYields_Suc
              Suc.IH del: shiftTabLoop.simps(2))
    qed
  qed
qed

text \<open>
  C3. The reverse verifier of either file (\<open>getMetadata\<close> is the file's
  \<^verbatim>\<open>getActiveElementMetadata\<close>) returns null exactly when the sequence has fewer
  than two entries or re-focusing the selector of the last entry fails. When
  there are at least two entries and re-focusing succeeds, leaving world \<open>w1\<close>,
  step \<open>k\<close> of the Shift+Tab walk from \<open>w1\<close> is compared with the entry at
  position \<open>length vis - 2 - k\<close>, from the one before the last down to the
  first: the verifier returns false, in the world that step leaves, exactly
  when some step extracts nothing or another pair while all steps before it
  match; it returns true exactly when every step matches.
\<close>

theorem verifyShiftTab_result:
  "((\<exists>w'. verifyShiftTab getMetadata pw page vis w = Inr (None, w'))
      \<longleftrightarrow> length vis < 2
          \<or> (\<exists>w'. evaluateFocus pw page (selector (vis ! (length vis - 1))) w = Inr (False, w')))
   \<and> (2 \<le> length vis
      \<and> evaluateFocus pw page (selector (vis ! (length vis - 1))) w = Inr (True, w1)
    \<longrightarrow> (\<forall>w'. verifyShiftTab getMetadata pw page vis w = Inr (Some False, w')
            \<longleftrightarrow> (\<exists>k < length vis - 1.
                   stepMisses getMetadata pw page w1 k (vis ! (length vis - 2 - k)) w'
                   \<and> (\<forall>l<k. stepYields getMetadata pw page w1 l (vis ! (length vis - 2 - l)))))
        \<and> ((\<exists>w'. verifyShiftTab getMetadata pw page vis w = Inr (Some True, w'))
            \<longleftrightarrow> (\<forall>k < length vis - 1.
                   stepYields getMetadata pw page w1 k (vis ! (length vis - 2 - k)))))"
proof -
  have null: "(\<exists>w'. verifyShiftTab getMetadata pw page vis w = Inr (None, w'))
      \<longleftrightarrow> length vis < 2
          \<or> (\<exists>w'. evaluateFocus pw page (selector (vis ! (length vis - 1))) w = Inr (False, w'))"
  proof (cases "length vis \<le> 1")
    case True
    then show ?thesis by (simp add: verifyShiftTab_def)
  next
    case False
    show ?thesis
    proof (cases "evaluateFocus pw page (selector (vis ! (length vis - 1))) w")
      case (Inl e)
      with False show ?thesis by (simp add: verifyShiftTab_def Let_def)
    next
      case (Inr r)
      obtain refocused w1 where "r = (refocused, w1)" by (cases r)
      with False Inr show ?thesis
        by (cases refocused) (auto simp: verifyShiftTab_def Let_def shiftTabLoop_not_null)
    qed
  qed
  have walk: "(\<forall>w'. verifyShiftTab getMetadata pw page vis w = Inr (Some False, w')
            \<longleftrightarrow> (\<exists>k < length vis - 1.
                   stepMisses getMetadata pw page w1 k (vis ! (length vis - 2 - k)) w'
                   \<and> (\<forall>l<k. stepYields getMetadata pw page w1 l (vis ! (length vis - 2 - l)))))
        \<and> ((\<exists>w'. verifyShiftTab getMetadata pw page vis w = Inr (Some True, w'))
            \<longleftrightarrow> (\<forall>k < length vis - 1.
                   stepYields getMetadata pw page w1 k (vis ! (length vis - 2 - k))))"
    if a: "2 \<le> length vis
      \<and> evaluateFocus pw page (selector (vis ! (length vis - 1))) w = Inr (True, w1)"
  proof -
    from a have v: "verifyShiftTab getMetadata pw page vis w = shiftTabLoop getMetadata pw page vis (length vis - 1) w1"
      by (simp add: verifyShiftTab_def Let_def)
    have idx: "length vis - 1 - 1 - k = length vis - 2 - k" for k by simp
    show ?thesis
      unfolding v shiftTabLoop_false shiftTabLoop_true idx by simp
  qed
  from null walk show ?thesis by blast
qed

theorem verifyShiftTab_result_witness:
  "(2::nat) \<le> length linksVisited
   \<and> evaluateFocus (linksBrowser 3 False) 0
        (selector (linksVisited ! (length linksVisited - 1))) 1 = Inr (True, 4)
   \<and> stepYields getActiveElementMetadata (linksBrowser 3 False) 0 4 0 (linksVisited ! 1)
   \<and> stepYields getActiveElementMetadata (linksBrowser 3 False) 0 4 1 (linksVisited ! 0)
   \<and> (\<exists>w'. verifyShiftTab getActiveElementMetadata (linksBrowser 3 False) 0 linksVisited 1 = Inr (Some True, w'))
   \<and> (\<nexists>w'. verifyShiftTab getActiveElementMetadata (linksBrowser 3 False) 0 linksVisited 1 = Inr (None, w'))
   \<and> (\<exists>w'. verifyShiftTab getActiveElementMetadata (linksBrowser 3 False) 0 [linkTarget 1] 1 = Inr (None, w'))"
proof -
  have h0: "length linksVisited = 3"
    by (simp add: linksVisited_def)
  have h1: "evaluateFocus (linksBrowser 3 False) 0
        (selector (linksVisited ! (length linksVisited - 1))) 1 = Inr (True, 4)"
    by code_simp
  have h2: "stepYields getActiveElementMetadata (linksBrowser 3 False) 0 4 0 (linksVisited ! 1)"
    by code_simp
  have h3: "stepYields getActiveElementMetadata (linksBrowser 3 False) 0 4 1 (linksVisited ! 0)"
    by code_simp
  have all: "\<forall>k < length linksVisited - 1.
      stepYields getActiveElementMetadata (linksBrowser 3 False) 0 4 k (linksVisited ! (length linksVisited - 2 - k))"
    using h2 h3 by (simp add: h0 numeral_2_eq_2 All_less_Suc)
  from verifyShiftTab_result [where getMetadata = getActiveElementMetadata
      and pw = "linksBrowser 3 False" and page = 0 and vis = linksVisited and w = 1
      and ?w1.0 = 4]
    verifyShiftTab_result [where getMetadata = getActiveElementMetadata
      and pw = "linksBrowser 3 False" and page = 0 and vis = "[linkTarget 1]" and w = 1
      and ?w1.0 = 4]
    h0 h1 h2 h3 all
  show ?thesis by auto
qed

subsection \<open>Accessible names\<close>

lemma trim_Nil: "trim [] = []"
  by (simp add: trim_def)

lemma trim_blank:
  assumes "list_all isWhiteSpace s"
  shows "trim s = []"
proof -
  from assms have "dropWhile isWhiteSpace s = []"
    by (simp add: list_all_iff)
  then show ?thesis
    unfolding trim_def by (simp only: rev.simps dropWhile.simps)
qed

lemma trimmedAttribute_Some:
  "attributes e a = Some v \<Longrightarrow> trim v \<noteq> [] \<Longrightarrow> trimmedAttribute e a = Some (trim v)"
  by (auto simp: trimmedAttribute_def trim_Nil)

lemma last_dropWhile: "dropWhile P xs \<noteq> [] \<Longrightarrow> last (dropWhile P xs) = last xs"
  by (induction xs) auto

text \<open>
  What \<open>trim\<close> removes: white space before and after, and all of it.
\<close>

lemma trim_parts:
  "\<exists>l r. s = l @ trim s @ r \<and> list_all isWhiteSpace l \<and> list_all isWhiteSpace r"
proof -
  let ?d = "dropWhile isWhiteSpace s"
  have 1: "s = takeWhile isWhiteSpace s @ ?d" by simp
  have 2: "?d = trim s @ rev (takeWhile isWhiteSpace (rev ?d))"
    using rev_append [of "takeWhile isWhiteSpace (rev ?d)" "dropWhile isWhiteSpace (rev ?d)"]
    unfolding takeWhile_dropWhile_id by (simp add: trim_def)
  have 3: "list_all isWhiteSpace (takeWhile isWhiteSpace s)"
    by (auto simp: list_all_iff dest: set_takeWhileD)
  have 4: "list_all isWhiteSpace (rev (takeWhile isWhiteSpace (rev ?d)))"
    by (auto simp: list_all_iff dest: set_takeWhileD)
  from 1 2 have "s = takeWhile isWhiteSpace s @ trim s @ rev (takeWhile isWhiteSpace (rev ?d))"
    by simp
  with 3 4 show ?thesis by blast
qed

lemma trim_ends:
  assumes "trim s \<noteq> []"
  shows "\<not> isWhiteSpace (hd (trim s)) \<and> \<not> isWhiteSpace (last (trim s))"
proof -
  let ?d = "dropWhile isWhiteSpace s"
  let ?e = "dropWhile isWhiteSpace (rev ?d)"
  from assms have e: "?e \<noteq> []" by (simp add: trim_def)
  have d: "?d \<noteq> []"
  proof
    assume "?d = []"
    then have "?e = []" by (simp only: rev.simps dropWhile.simps)
    with e show False ..
  qed
  have "last (trim s) = hd ?e" using e by (simp add: trim_def last_rev)
  moreover have "\<not> isWhiteSpace (hd ?e)" using e by (rule hd_dropWhile)
  moreover have "hd (trim s) = last ?e" using e by (simp add: trim_def hd_rev)
  moreover have "last ?e = last (rev ?d)" using e by (rule last_dropWhile)
  moreover have "last (rev ?d) = hd ?d" using d by (simp add: last_rev)
  moreover have "\<not> isWhiteSpace (hd ?d)" using d by (rule hd_dropWhile)
  ultimately show ?thesis by simp
qed

text \<open>
  C5. An element whose \<^verbatim>\<open>aria-label\<close> is not empty after trimming gets the
  trimmed \<^verbatim>\<open>aria-label\<close> as its name. Nothing else is consulted: any element
  of any document with that \<^verbatim>\<open>aria-label\<close> gets the same name, whatever its
  other attributes, its kind, its text and the rest of its document are. The
  trimmed label is the label without the white space before and after it.
\<close>

theorem aria_label_first:
  "(attributes (node doc el) ''aria-label'' = Some a \<and> trim a \<noteq> []
    \<longrightarrow> deriveAccessibleName doc el = Some (trim a))
   \<and> (attributes (node doc el) ''aria-label'' = Some a \<and> trim a \<noteq> []
      \<and> attributes (node doc' el') ''aria-label'' = Some a
    \<longrightarrow> deriveAccessibleName doc' el' = deriveAccessibleName doc el)
   \<and> (\<exists>l r. a = l @ trim a @ r \<and> list_all isWhiteSpace l \<and> list_all isWhiteSpace r)
   \<and> (trim a \<noteq> [] \<longrightarrow> \<not> isWhiteSpace (hd (trim a)) \<and> \<not> isWhiteSpace (last (trim a)))"
proof -
  have name: "deriveAccessibleName d e = Some (trim a)"
    if "attributes (node d e) ''aria-label'' = Some a" "trim a \<noteq> []" for d e
    using trimmedAttribute_Some [OF that] by (simp add: deriveAccessibleName_def Let_def)
  from name [of doc el] name [of doc' el'] trim_parts [of a] trim_ends [of a]
  show ?thesis by simp
qed

theorem aria_label_first_witness:
  "attributes (node galleryDocument 6) ''aria-label'' = Some ([CHR 0xA0, CHR 0x09] @ ''Save  '')
   \<and> trim ([CHR 0xA0, CHR 0x09] @ ''Save  '') = ''Save''
   \<and> attributes (node galleryDocument 6) ''title'' = Some ''Store''
   \<and> attributes (node galleryDocument 6) ''aria-labelledby'' = Some ''logo.main''
   \<and> deriveAccessibleName galleryDocument 6 = Some ''Save''
   \<and> attributes (node (galleryDocument \<lparr> allElements := [] \<rparr>) 6) ''aria-label''
       = Some ([CHR 0xA0, CHR 0x09] @ ''Save  '')
   \<and> deriveAccessibleName (galleryDocument \<lparr> allElements := [] \<rparr>) 6 = Some ''Save''
   \<and> trim [CHR 0xA0] = []"
proof -
  have h1: "attributes (node galleryDocument 6) ''aria-label''
       = Some ([CHR 0xA0, CHR 0x09] @ ''Save  '')"
    by code_simp
  have h2: "trim ([CHR 0xA0, CHR 0x09] @ ''Save  '') = ''Save''"
    by code_simp
  have h3: "attributes (node galleryDocument 6) ''title'' = Some ''Store''"
    by code_simp
  have h4: "attributes (node galleryDocument 6) ''aria-labelledby'' = Some ''logo.main''"
    by code_simp
  have h5: "attributes (node (galleryDocument \<lparr> allElements := [] \<rparr>) 6) ''aria-label''
       = Some ([CHR 0xA0, CHR 0x09] @ ''Save  '')"
    by code_simp
  have h6: "trim [CHR 0xA0] = []"
    by code_simp
  have h7: "''Save'' \<noteq> []"
    by simp
  from aria_label_first [of galleryDocument 6 "[CHR 0xA0, CHR 0x09] @ ''Save  ''"
      "galleryDocument \<lparr> allElements := [] \<rparr>" 6] h1 h3 h4 h5 h6 h7
  show ?thesis unfolding h2 by simp
qed

subsection \<open>Selectors\<close>

lemma buildPath_ancestry:
  "buildPath doc current depth path =
     (case current of
        None \<Rightarrow> path
      | Some el \<Rightarrow> map (selectorSegment doc) (rev (ancestry doc (4 - depth) el)) @ path)"
proof (induction doc current depth path rule: buildPath.induct)
  case (1 doc current depth path)
  show ?case
  proof (cases current)
    case None
    then show ?thesis by (subst buildPath.simps) simp
  next
    case (Some cur)
    show ?thesis
    proof (cases "depth < 4")
      case False
      with Some show ?thesis by (subst buildPath.simps) simp
    next
      case True
      then obtain n where n: "4 - depth = Suc n" "4 - (depth + 1) = n"
        by (cases "4 - depth") auto
      from "1.IH" [OF Some True] Some True n show ?thesis
        by (subst buildPath.simps) (simp split: option.splits)
    qed
  qed
qed

lemma length_ancestry: "length (ancestry doc n el) \<le> n"
  by (induction n arbitrary: el) (auto split: option.splits)

lemma ancestry_nonempty: "0 < n \<Longrightarrow> ancestry doc n el \<noteq> []"
  by (cases n) auto

lemma indexOf_member:
  "x \<in> set xs \<Longrightarrow> indexOf xs x = int (length (takeWhile (\<lambda>y. y \<noteq> x) xs))"
  by (induction xs) (auto simp: Let_def)

lemma numberToString_nat: "numberToString (int n) = natToString n"
  by (simp add: numberToString_def)

lemma join_Cons: "xs \<noteq> [] \<Longrightarrow> join sep (x # xs) = x @ sep @ join sep xs"
  by (cases xs) simp_all

lemma join_dots: "cs \<noteq> [] \<Longrightarrow> ''.'' @ join ''.'' cs = concat (map (\<lambda>c. ''.'' @ c) cs)"
  by (induction cs rule: list_nonempty_induct) (simp_all add: join_Cons)

text \<open>The class of the regular expression holds the characters the specification lists.\<close>

lemma escaped_characters: "set cssSpecialChars = set escapedCharacters"
  by code_simp

lemma cssEscape_specEscape: "cssEscape v = specEscape v"
  by (induction v) (simp_all add: cssEscape_def escaped_characters)

lemma cssEscape_spec: "cssEscape = specEscape"
  by (rule ext) (rule cssEscape_specEscape)

text \<open>Counting the element among the children, or its siblings without it.\<close>

lemma length_filter_remove1:
  "x \<in> set xs \<Longrightarrow> P x \<Longrightarrow> length (filter P xs) = Suc (length (filter P (remove1 x xs)))"
  by (induction xs) auto

lemma sameTagChildren_siblings:
  assumes "childOfParent doc el"
  shows "1 < length (sameTagChildren doc el) \<longleftrightarrow> sameTagSiblings doc el \<noteq> []"
proof (cases "parentElement (node doc el)")
  case None
  then show ?thesis by (simp add: sameTagChildren_def sameTagSiblings_def)
next
  case (Some p)
  with assms have "el \<in> set (children (node doc p))"
    by (simp add: childOfParent_def)
  from length_filter_remove1 [OF this, of "\<lambda>c. tagName (node doc c) = tagName (node doc el)"]
  show ?thesis using Some by (simp add: sameTagChildren_def sameTagSiblings_def)
qed

lemma selectorSegment_spec:
  assumes "childOfParent doc el"
  shows "selectorSegment doc el = specSegment doc el"
proof -
  have classes: "(if length (classList (node doc el)) \<noteq> 0
          then toLowerCase (tagName (node doc el)) @ ''.''
                 @ join ''.'' (map cssEscape (classList (node doc el)))
          else toLowerCase (tagName (node doc el)))
     = toLowerCase (tagName (node doc el))
         @ concat (map (\<lambda>c. ''.'' @ specEscape c) (classList (node doc el)))"
    using join_dots [of "map specEscape (classList (node doc el))"]
    by (cases "classList (node doc el) = []") (simp_all add: comp_def cssEscape_spec)
  have sib: "(filter (\<lambda>child. tagName (node doc child) = tagName (node doc el))
                       (case parentElement (node doc el) of
                          None \<Rightarrow> []
                        | Some p \<Rightarrow> children (node doc p))) = sameTagChildren doc el"
    by (simp add: sameTagChildren_def split: option.splits)
  have idx: "'':nth-of-type('' @ numberToString (indexOf (sameTagChildren doc el) el + 1) @ '')''
      = nthOfType doc el"
    if "1 < length (sameTagChildren doc el)"
  proof -
    from that have "parentElement (node doc el) \<noteq> None"
      by (auto simp: sameTagChildren_def split: option.splits)
    with assms have "el \<in> set (sameTagChildren doc el)"
      by (auto simp: sameTagChildren_def childOfParent_def split: option.splits)
    from indexOf_member [OF this]
    have "indexOf (sameTagChildren doc el) el + 1 = int (positionIn (sameTagChildren doc el) el)"
      by (simp add: positionIn_def)
    then show ?thesis by (simp only: numberToString_nat nthOfType_def)
  qed
  show ?thesis
    unfolding selectorSegment_def specSegment_def Let_def sib classes
    using idx sameTagChildren_siblings [OF assms] by simp
qed

text \<open>
  C6, as claimed: a segment carries \<^verbatim>\<open>:nth-of-type(k)\<close> exactly when the
  element has more than one same-tag sibling. On the page of two links the
  first link has one same-tag sibling, the second link, and its segment
  carries the index.
\<close>

theorem one_sibling_counterexample:
  "elementId (node (linksDocument 2 2) 2) = []
   \<and> sameTagSiblings (linksDocument 2 2) 2 = [3]
   \<and> buildSelector (linksDocument 2 2) 2 = ''html > body > a.nav:nth-of-type(1)''
   \<and> join '' > '' (map (claimedSegment (linksDocument 2 2)) (rev (ancestry (linksDocument 2 2) 4 2)))
       = ''html > body > a.nav''
   \<and> buildSelector (linksDocument 2 2) 2
       \<noteq> join '' > '' (map (claimedSegment (linksDocument 2 2))
                         (rev (ancestry (linksDocument 2 2) 4 2)))"
  by code_simp

text \<open>
  C6, amended: for an element with a non-empty id the selector is \<^verbatim>\<open>#\<close> and
  the escaped id, whatever its ancestors are. For an element without one, the
  selector is the \<^verbatim>\<open>" > "\<close>-join of the segments of the element and its
  ancestors, outermost first, at least one and at most four of them; each
  segment is the lowercase tag name, the escaped classes in their order, each
  after a dot, and \<^verbatim>\<open>:nth-of-type(k)\<close> exactly when the element has at least
  one same-tag sibling under the same parent, \<open>k\<close> being the position from 1
  of the element among the children of its parent that have its tag name.
  Escaping puts a backslash before each of the characters the specification
  lists. The elements on the path are taken to be among the children of their
  parents, as they are in a document.
\<close>

theorem buildSelector_shape:
  "(elementId (node doc el) \<noteq> []
    \<longrightarrow> buildSelector doc el = ''#'' @ specEscape (elementId (node doc el)))
   \<and> (elementId (node doc el) = [] \<and> list_all (childOfParent doc) (ancestry doc 4 el)
    \<longrightarrow> buildSelector doc el = join '' > '' (map (specSegment doc) (rev (ancestry doc 4 el)))
        \<and> 1 \<le> length (ancestry doc 4 el) \<and> length (ancestry doc 4 el) \<le> 4)"
proof -
  have path: "buildSelector doc el = join '' > '' (map (specSegment doc) (rev (ancestry doc 4 el)))"
    if "elementId (node doc el) = []" "list_all (childOfParent doc) (ancestry doc 4 el)"
  proof -
    from that(2) have "\<forall>a \<in> set (rev (ancestry doc 4 el)). childOfParent doc a"
      by (simp add: list_all_iff)
    then have "map (selectorSegment doc) (rev (ancestry doc 4 el))
        = map (specSegment doc) (rev (ancestry doc 4 el))"
      by (intro map_cong refl) (simp add: selectorSegment_spec)
    moreover from that(1)
    have "buildSelector doc el = join '' > '' (map (selectorSegment doc) (rev (ancestry doc 4 el)))"
      by (simp add: buildSelector_def buildPath_ancestry)
    ultimately show ?thesis by (simp only:)
  qed
  have "1 \<le> length (ancestry doc 4 el)"
    using ancestry_nonempty [of 4 doc el] by (cases "ancestry doc 4 el") simp_all
  with path length_ancestry [of doc 4 el] show ?thesis
    by (simp add: buildSelector_def cssEscape_spec)
qed

theorem buildSelector_shape_witness:
  "elementId (node galleryDocument 2) = ''logo.main''
   \<and> buildSelector galleryDocument 2 = ''#logo'' @ [CHR 0x5C] @ ''.main''
   \<and> elementId (node galleryDocument 3) = []
   \<and> list_all (childOfParent galleryDocument) (ancestry galleryDocument 4 3)
   \<and> ancestry galleryDocument 4 3 = [3, 1, 0]
   \<and> buildSelector galleryDocument 3 = ''html > body > img:nth-of-type(2)''
   \<and> elementId (node galleryDocument 6) = []
   \<and> list_all (childOfParent galleryDocument) (ancestry galleryDocument 4 6)
   \<and> buildSelector galleryDocument 6
       = ''html > body > button.btn.btn'' @ [CHR 0x5C] @ '':primary''"
proof -
  have h1: "elementId (node galleryDocument 2) = ''logo.main''"
    by code_simp
  have h2: "elementId (node galleryDocument 3) = []"
    by code_simp
  have h3: "list_all (childOfParent galleryDocument) (ancestry galleryDocument 4 3)"
    by code_simp
  have h4: "ancestry galleryDocument 4 3 = [3, 1, 0]"
    by code_simp
  have h5: "map (specSegment galleryDocument) [0, 1, 3] = [''html'', ''body'', ''img:nth-of-type(2)'']"
    by code_simp
  have h6: "specEscape ''logo.main'' = ''logo'' @ [CHR 0x5C] @ ''.main''"
    by code_simp
  have h7: "elementId (node galleryDocument 6) = []"
    by code_simp
  have h8: "list_all (childOfParent galleryDocument) (ancestry galleryDocument 4 6)"
    by code_simp
  have h9: "join '' > '' (map (specSegment galleryDocument) (rev (ancestry galleryDocument 4 6)))
      = ''html > body > button.btn.btn'' @ [CHR 0x5C] @ '':primary''"
    by code_simp
  from buildSelector_shape [of galleryDocument 2] buildSelector_shape [of galleryDocument 3]
    buildSelector_shape [of galleryDocument 6]
    h1 h2 h3 h4 h5 h6 h7 h8 h9
  show ?thesis by simp
qed

subsection \<open>The static scan\<close>

lemma missingAltFilter_lacksUsableAlt: "missingAltFilter doc img = lacksUsableAlt doc img"
  by (auto simp: missingAltFilter_def lacksUsableAlt_def Let_def split: option.splits)

text \<open>
  C7, as claimed: an image whose \<^verbatim>\<open>alt\<close> is empty after trimming is listed
  only if it has no \<^verbatim>\<open>role\<close> attribute. The scan also lists such an image
  when its \<^verbatim>\<open>role\<close> attribute is there and empty: image 4 of the gallery has
  \<^verbatim>\<open>alt=""\<close> and \<^verbatim>\<open>role=""\<close> and is listed.
\<close>

theorem empty_role_counterexample:
  "attributes (node galleryDocument 4) ''alt'' = Some []
   \<and> attributes (node galleryDocument 4) ''role'' = Some []
   \<and> \<not> specMissingAlt galleryDocument 4
   \<and> imagesMissingAlt (scanDocument galleryDocument)
       = [imageDescriptor galleryDocument 3, imageDescriptor galleryDocument 4,
          imageDescriptor galleryDocument 8]
   \<and> imagesMissingAlt (scanDocument galleryDocument)
       \<noteq> map (imageDescriptor galleryDocument)
            (take 20 (filter (specMissingAlt galleryDocument) (imageElements galleryDocument)))"
  by code_simp

text \<open>
  C7, amended: \<open>imagesMissingAlt\<close> holds the descriptors of the first at most
  20 images, in document order, whose \<^verbatim>\<open>alt\<close> attribute is absent, or is
  empty after trimming while the \<^verbatim>\<open>role\<close> attribute is absent or empty. An
  entry carries the \<^verbatim>\<open>src\<close> attribute, or none, and a snippet of at most 160
  characters. An image whose \<^verbatim>\<open>alt\<close> is not empty after trimming is never
  among them.
\<close>

theorem imagesMissingAlt_spec:
  "imagesMissingAlt (scanDocument doc)
     = map (imageDescriptor doc) (take 20 (filter (lacksUsableAlt doc) (imageElements doc)))
   \<and> length (imagesMissingAlt (scanDocument doc)) \<le> 20
   \<and> list_all (\<lambda>d. length (snippet d) \<le> 160) (imagesMissingAlt (scanDocument doc))
   \<and> (attributes (node doc img) ''alt'' = Some a \<and> trim a \<noteq> []
      \<longrightarrow> img \<notin> set (take 20 (filter (lacksUsableAlt doc) (imageElements doc))))"
proof -
  have eq: "imagesMissingAlt (scanDocument doc)
     = map (imageDescriptor doc) (take 20 (filter (lacksUsableAlt doc) (imageElements doc)))"
  proof -
    have "missingAltFilter doc = lacksUsableAlt doc"
      by (rule ext) (rule missingAltFilter_lacksUsableAlt)
    moreover have "(\<lambda>img. \<lparr> src = attributes (node doc img) ''src'',
                          snippet = take 160 (outerHTML (node doc img)) \<rparr>) = imageDescriptor doc"
      by (rule ext) (simp add: imageDescriptor_def)
    ultimately show ?thesis by (simp add: scanDocument_def Let_def)
  qed
  have len: "length (imagesMissingAlt (scanDocument doc)) \<le> 20"
    unfolding eq by simp
  have snip: "list_all (\<lambda>d. length (snippet d) \<le> 160) (imagesMissingAlt (scanDocument doc))"
    unfolding eq by (simp add: list_all_iff imageDescriptor_def)
  have out: "img \<notin> set (take 20 (filter (lacksUsableAlt doc) (imageElements doc)))"
    if "attributes (node doc img) ''alt'' = Some a" "trim a \<noteq> []"
  proof -
    from that have "\<not> lacksUsableAlt doc img" by (simp add: lacksUsableAlt_def)
    then show ?thesis by (auto dest: in_set_takeD)
  qed
  from eq len snip out show ?thesis by blast
qed

theorem imagesMissingAlt_spec_witness:
  "attributes (node galleryDocument 2) ''alt'' = Some ''logo''
   \<and> trim ''logo'' \<noteq> []
   \<and> imageElements galleryDocument = [2, 3, 4, 5, 8]
   \<and> attributes (node galleryDocument 8) ''alt'' = Some [CHR 0xA0, CHR 0x20]
   \<and> attributes (node galleryDocument 5) ''alt'' = Some ''  ''
   \<and> attributes (node galleryDocument 5) ''role'' = Some ''presentation''
   \<and> filter (lacksUsableAlt galleryDocument) (imageElements galleryDocument) = [3, 4, 8]
   \<and> imagesMissingAlt (scanDocument galleryDocument)
       = [\<lparr> src = Some ''a.png'', snippet = ''<img src=a.png>'' \<rparr>,
          \<lparr> src = None, snippet = ''<img alt role>'' \<rparr>,
          \<lparr> src = Some ''d.png'', snippet = ''<img src=d.png alt>'' \<rparr>]
   \<and> 2 \<notin> set (take 20 (filter (lacksUsableAlt galleryDocument) (imageElements galleryDocument)))"
proof -
  have h1: "attributes (node galleryDocument 2) ''alt'' = Some ''logo''"
    by code_simp
  have h2: "trim ''logo'' \<noteq> []"
    by code_simp
  have h3: "imageElements galleryDocument = [2, 3, 4, 5, 8]"
    by code_simp
  have h4: "filter (lacksUsableAlt galleryDocument) [2, 3, 4, 5, 8] = [3, 4, 8]"
    by code_simp
  have h5: "map (imageDescriptor galleryDocument) [3, 4, 8]
       = [\<lparr> src = Some ''a.png'', snippet = ''<img src=a.png>'' \<rparr>,
          \<lparr> src = None, snippet = ''<img alt role>'' \<rparr>,
          \<lparr> src = Some ''d.png'', snippet = ''<img src=d.png alt>'' \<rparr>]"
    by code_simp
  have h6: "attributes (node galleryDocument 8) ''alt'' = Some [CHR 0xA0, CHR 0x20]"
    by code_simp
  have h7: "attributes (node galleryDocument 5) ''alt'' = Some ''  ''"
    by code_simp
  have h8: "attributes (node galleryDocument 5) ''role'' = Some ''presentation''"
    by code_simp
  from imagesMissingAlt_spec [of galleryDocument 2 "''logo''"] h1 h2 h3 h4 h5 h6 h7 h8
  show ?thesis by simp
qed

subsection \<open>The result of the check\<close>

lemma shape_missingUrlState: "failureShape missingUrlState \<and> \<not> successShape missingUrlState"
  by (simp add: failureShape_def successShape_def missingUrlState_def)

lemma shape_successState:
  "successShape (successState u t a) \<and> \<not> failureShape (successState u t a)"
  by (simp add: failureShape_def successShape_def successState_def)

lemma shape_failureState:
  "failureShape (failureState u e) \<and> \<not> successShape (failureState u e)"
  by (simp add: failureShape_def successShape_def failureState_def)

text \<open>The state that the action returns is one of its three object literals.\<close>

lemma checkAccessibilityAction_states:
  assumes "checkAccessibilityAction imported v w = Inr (s, w')"
  shows "s = missingUrlState \<or> (\<exists>u t a. s = successState u t a) \<or> (\<exists>u e. s = failureState u e)"
proof (cases "formUrl v = []")
  case True
  with assms show ?thesis by (simp add: checkAccessibilityAction_def)
next
  case False
  obtain browser res where tried: "actionTry imported (normalizeUrl (formUrl v)) w = (browser, res)"
    by (cases "actionTry imported (normalizeUrl (formUrl v)) w")
  obtain st w1 where st: "(case res of
                              Inr ((t, a), w') \<Rightarrow> (successState (normalizeUrl (formUrl v)) t a, w')
                            | Inl (e, w') \<Rightarrow> (failureState (normalizeUrl (formUrl v)) e, w'))
                          = (st, w1)"
    by (cases "(case res of
                  Inr ((t, a), w') \<Rightarrow> (successState (normalizeUrl (formUrl v)) t a, w')
                | Inl (e, w') \<Rightarrow> (failureState (normalizeUrl (formUrl v)) e, w'))")
  from st have kinds: "(\<exists>u t a. st = successState u t a) \<or> (\<exists>u e. st = failureState u e)"
    by (auto split: sum.splits prod.splits)
  from assms False tried st have "s = st"
    by (auto simp: checkAccessibilityAction_def Let_def split: option.splits sum.splits)
  with kinds show ?thesis by simp
qed

text \<open>The response of the handler carries one of four states, with its status.\<close>

lemma POST_states:
  assumes "POST env reqBody w = (resp, w')"
  shows "(status resp = 400 \<and> failureShape (payload resp) \<and> \<not> successShape (payload resp)
            \<and> \<not> ok (payload resp))
       \<or> (status resp = 200 \<and> (\<exists>u t a. payload resp = successState u t a))
       \<or> (status resp = 500 \<and> (\<exists>u e. payload resp = failureState u e))"
proof (cases reqBody)
  case InvalidJson
  with assms have "resp = \<lparr> status = 400,
              payload = \<lparr> ok = False, summary = ''Invalid request payload.'', url = None,
                          tabOrder = None, aria = None,
                          errors = Some [''Expected JSON body with a url field.''] \<rparr> \<rparr>"
    by (simp add: POST_def)
  then have "status resp = 400 \<and> failureShape (payload resp) \<and> \<not> successShape (payload resp)
            \<and> \<not> ok (payload resp)"
    by (simp add: failureShape_def successShape_def)
  then show ?thesis by blast
next
  case (JsonBody u)
  show ?thesis
  proof (cases "bodyUrl u = []")
    case True
    with assms JsonBody have "resp = \<lparr> status = 400, payload = missingUrlState \<rparr>"
      by (simp add: POST_def)
    with shape_missingUrlState
    have "status resp = 400 \<and> failureShape (payload resp) \<and> \<not> successShape (payload resp)
            \<and> \<not> ok (payload resp)"
      by (simp add: missingUrlState_def)
    then show ?thesis by blast
  next
    case False
    obtain handles res where
      tried: "routeTry env (resolvePlaywright env) (normalizeUrl (bodyUrl u)) w = (handles, res)"
      by (cases "routeTry env (resolvePlaywright env) (normalizeUrl (bodyUrl u)) w")
    obtain browser ctx pg where handles: "handles = (browser, ctx, pg)"
      by (cases handles)
    show ?thesis
    proof (cases res)
      case (Inl x)
      obtain e w1 where "x = (e, w1)" by (cases x)
      with assms JsonBody False tried handles Inl
      have "resp = \<lparr> status = 500, payload = failureState (normalizeUrl (bodyUrl u)) e \<rparr>"
        by (simp add: POST_def Let_def)
      then have "status resp = 500 \<and> (\<exists>u e. payload resp = failureState u e)"
        by auto
      then show ?thesis by blast
    next
      case (Inr x)
      obtain t a w1 where "x = ((t, a), w1)" by (cases x) auto
      with assms JsonBody False tried handles Inr
      have "resp = \<lparr> status = 200, payload = successState (normalizeUrl (bodyUrl u)) t a \<rparr>"
        by (simp add: POST_def Let_def)
      then have "status resp = 200 \<and> (\<exists>u t a. payload resp = successState u t a)"
        by auto
      then show ?thesis by blast
    qed
  qed
qed

text \<open>
  C8. A state returned by the check, by the server action of
  \<^verbatim>\<open>src/actions.ts\<close> or in the response of the handler of
  \<^verbatim>\<open>src/app/api/check/route.ts\<close>, has exactly one of two shapes: \<open>ok\<close> with
  \<open>tabOrder\<close> and \<open>aria\<close> there and no \<open>errors\<close>, or not \<open>ok\<close> with at least
  one message in \<open>errors\<close> and neither \<open>tabOrder\<close> nor \<open>aria\<close>. The handler
  answers with status 200 exactly when the state is \<open>ok\<close>.
\<close>

theorem check_state_shape:
  "(checkAccessibilityAction imported v w = Inr (s, w1)
    \<longrightarrow> (successShape s \<or> failureShape s) \<and> \<not> (successShape s \<and> failureShape s))
   \<and> (POST env reqBody w = (resp, w2)
    \<longrightarrow> (successShape (payload resp) \<or> failureShape (payload resp))
        \<and> \<not> (successShape (payload resp) \<and> failureShape (payload resp))
        \<and> (ok (payload resp) \<longleftrightarrow> status resp = 200))"
proof -
  have action: "(successShape s \<or> failureShape s) \<and> \<not> (successShape s \<and> failureShape s)"
    if "checkAccessibilityAction imported v w = Inr (s, w1)"
    using checkAccessibilityAction_states [OF that]
      shape_missingUrlState shape_successState shape_failureState
    by auto
  have handler: "(successShape (payload resp) \<or> failureShape (payload resp))
        \<and> \<not> (successShape (payload resp) \<and> failureShape (payload resp))
        \<and> (ok (payload resp) \<longleftrightarrow> status resp = 200)"
    if "POST env reqBody w = (resp, w2)"
  proof -
    have "ok (successState u t a)" "\<not> ok (failureState u e)" for u t a e
      by (simp_all add: successState_def failureState_def)
    with POST_states [OF that] shape_successState shape_failureState show ?thesis
      by auto
  qed
  from action handler show ?thesis by blast
qed

lemma links_action:
  "checkAccessibilityAction (Inr (linksBrowser 3 False)) (Some (FormString '' example.com '')) 0
     = Inr (failureState ''https://example.com''
              (ErrorObject ''page.evaluate: buildSelector is not defined''), 2)"
  by code_simp

lemma nolinks_action:
  "checkAccessibilityAction (Inr (linksBrowser 0 False))
       (Some (FormString ([CHR 0xA0] @ ''example.com''))) 0
     = Inr (successState ''https://example.com''
              \<lparr> visited = [], cycleDetected = False, limitReached = False,
                shiftTabConsistent = None \<rparr>
              \<lparr> ariaAttributeCount = 0, imagesMissingAlt = [] \<rparr>, 1)"
  by code_simp

lemma links_POST:
  "POST linksEnvironment (JsonBody (UrlString ''example.com'')) 0
     = (\<lparr> status = 200, payload = linksState \<rparr>, 2)"
  by code_simp

lemma links_POST_serverless:
  "POST (linksEnvironment \<lparr> isVercel := True \<rparr>) (JsonBody (UrlString ''example.com'')) 0
     = (\<lparr> status = 500,
          payload = failureState ''https://example.com'' (ErrorObject ''no serverless browser'') \<rparr>,
        0)"
  by code_simp

theorem check_state_shape_witness:
  "checkAccessibilityAction (Inr (linksBrowser 3 False)) (Some (FormString '' example.com '')) 0
     = Inr (failureState ''https://example.com''
              (ErrorObject ''page.evaluate: buildSelector is not defined''), 2)
   \<and> failureShape (failureState ''https://example.com''
         (ErrorObject ''page.evaluate: buildSelector is not defined''))
   \<and> \<not> successShape (failureState ''https://example.com''
         (ErrorObject ''page.evaluate: buildSelector is not defined''))
   \<and> checkAccessibilityAction (Inr (linksBrowser 0 False))
         (Some (FormString ([CHR 0xA0] @ ''example.com''))) 0
     = Inr (successState ''https://example.com''
              \<lparr> visited = [], cycleDetected = False, limitReached = False,
                shiftTabConsistent = None \<rparr>
              \<lparr> ariaAttributeCount = 0, imagesMissingAlt = [] \<rparr>, 1)
   \<and> successShape (successState ''https://example.com''
              \<lparr> visited = [], cycleDetected = False, limitReached = False,
                shiftTabConsistent = None \<rparr>
              \<lparr> ariaAttributeCount = 0, imagesMissingAlt = [] \<rparr>)
   \<and> POST linksEnvironment (JsonBody (UrlString ''example.com'')) 0
     = (\<lparr> status = 200, payload = linksState \<rparr>, 2)
   \<and> successShape linksState \<and> \<not> failureShape linksState \<and> ok linksState
   \<and> POST (linksEnvironment \<lparr> isVercel := True \<rparr>) (JsonBody (UrlString ''example.com'')) 0
     = (\<lparr> status = 500,
          payload = failureState ''https://example.com'' (ErrorObject ''no serverless browser'') \<rparr>,
        0)
   \<and> failureShape (failureState ''https://example.com'' (ErrorObject ''no serverless browser''))
   \<and> \<not> successShape (failureState ''https://example.com'' (ErrorObject ''no serverless browser''))"
proof -
  have s: "successShape linksState" "ok linksState"
    by (simp_all add: successShape_def linksState_def)
  have f: "failureShape (failureState ''https://example.com'' (ErrorObject ''no serverless browser''))"
    "failureShape (failureState ''https://example.com''
         (ErrorObject ''page.evaluate: buildSelector is not defined''))"
    by (simp_all add: failureShape_def failureState_def)
  have n: "successShape (successState ''https://example.com''
              \<lparr> visited = [], cycleDetected = False, limitReached = False,
                shiftTabConsistent = None \<rparr>
              \<lparr> ariaAttributeCount = 0, imagesMissingAlt = [] \<rparr>)"
    by (simp add: successShape_def successState_def)
  from check_state_shape [where imported = "Inr (linksBrowser 3 False)"
      and v = "Some (FormString '' example.com '')" and w = 0
      and s = "failureState ''https://example.com''
                 (ErrorObject ''page.evaluate: buildSelector is not defined'')"
      and ?w1.0 = 2 and env = "linksEnvironment \<lparr> isVercel := True \<rparr>"
      and reqBody = "JsonBody (UrlString ''example.com'')"
      and resp = "\<lparr> status = 500,
          payload = failureState ''https://example.com'' (ErrorObject ''no serverless browser'') \<rparr>"
      and ?w2.0 = 0]
    check_state_shape [where imported = "Inr (linksBrowser 0 False)"
      and v = "Some (FormString ([CHR 0xA0] @ ''example.com''))" and w = 0
      and s = "successState ''https://example.com''
              \<lparr> visited = [], cycleDetected = False, limitReached = False,
                shiftTabConsistent = None \<rparr>
              \<lparr> ariaAttributeCount = 0, imagesMissingAlt = [] \<rparr>"
      and ?w1.0 = 1 and env = linksEnvironment
      and reqBody = "JsonBody (UrlString ''example.com'')"
      and resp = "\<lparr> status = 200, payload = linksState \<rparr>"
      and ?w2.0 = 2]
    links_action nolinks_action links_POST links_POST_serverless s f n
  show ?thesis by simp
qed

text \<open>
  C9. When the \<^verbatim>\<open>url\<close> of the input is missing, empty or only white space,
  the check returns the state with \<open>ok = False\<close> and \<open>errors = ["Missing URL"]\<close>,
  and leaves the world as it was, whatever the browser library and the
  environment are: none of their calls is made, no browser is launched and no
  page is opened. The input is the form of the server action and the parsed
  body of the request; the handler answers with status 400.
\<close>

theorem missing_url_rejected:
  "(blankFormUrl v \<longrightarrow> checkAccessibilityAction imported v w = Inr (missingUrlState, w))
   \<and> (blankBodyUrl u
    \<longrightarrow> POST env (JsonBody u) w = (\<lparr> status = 400, payload = missingUrlState \<rparr>, w))
   \<and> \<not> ok missingUrlState \<and> errors missingUrlState = Some [''Missing URL'']
   \<and> tabOrder missingUrlState = None \<and> aria missingUrlState = None"
proof -
  have action: "checkAccessibilityAction imported v w = Inr (missingUrlState, w)"
    if "blankFormUrl v"
  proof -
    from that have "formUrl v = []"
      by (auto simp: blankFormUrl_def formUrl_def trim_Nil trim_blank
          split: option.splits form_value.splits)
    then show ?thesis by (simp add: checkAccessibilityAction_def)
  qed
  have handler: "POST env (JsonBody u) w = (\<lparr> status = 400, payload = missingUrlState \<rparr>, w)"
    if "blankBodyUrl u"
  proof -
    from that have "bodyUrl u = []"
      by (auto simp: blankBodyUrl_def bodyUrl_def trim_blank split: url_field.splits)
    then show ?thesis by (simp add: POST_def)
  qed
  from action handler show ?thesis by (simp add: missingUrlState_def)
qed

theorem missing_url_rejected_witness:
  "blankFormUrl (Some (FormString [CHR 0x20, CHR 0xA0, CHR 0x09]))
   \<and> checkAccessibilityAction (Inr (linksBrowser 3 False))
         (Some (FormString [CHR 0x20, CHR 0xA0, CHR 0x09])) 0
       = Inr (missingUrlState, 0)
   \<and> blankFormUrl None
   \<and> checkAccessibilityAction (Inr (linksBrowser 3 False)) None 0 = Inr (missingUrlState, 0)
   \<and> blankBodyUrl (UrlString [])
   \<and> POST linksEnvironment (JsonBody (UrlString [])) 0
       = (\<lparr> status = 400, payload = missingUrlState \<rparr>, 0)
   \<and> blankBodyUrl (UrlString [CHR 0xA0])
   \<and> POST linksEnvironment (JsonBody (UrlString [CHR 0xA0])) 0
       = (\<lparr> status = 400, payload = missingUrlState \<rparr>, 0)
   \<and> blankBodyUrl UrlMissing
   \<and> POST linksEnvironment (JsonBody UrlMissing) 0
       = (\<lparr> status = 400, payload = missingUrlState \<rparr>, 0)"
proof -
  have h1: "blankFormUrl (Some (FormString [CHR 0x20, CHR 0xA0, CHR 0x09]))"
    by code_simp
  have h2: "blankFormUrl None"
    by (simp add: blankFormUrl_def)
  have h3: "blankBodyUrl (UrlString [])"
    by (simp add: blankBodyUrl_def)
  have h4: "blankBodyUrl UrlMissing"
    by (simp add: blankBodyUrl_def)
  have h5: "blankBodyUrl (UrlString [CHR 0xA0])"
    by code_simp
  from missing_url_rejected [of "Some (FormString [CHR 0x20, CHR 0xA0, CHR 0x09])"
      "Inr (linksBrowser 3 False)" 0 "UrlString []" linksEnvironment]
    missing_url_rejected [of None "Inr (linksBrowser 3 False)" 0 UrlMissing linksEnvironment]
    missing_url_rejected [of None "Inr (linksBrowser 3 False)" 0 "UrlString [CHR 0xA0]"
      linksEnvironment]
    h1 h2 h3 h4 h5
  show ?thesis by simp
qed

end
